theory Spec2Isabelle
  imports Main "HOL-Library.Word"
begin

section \<open>JavaScript values, options objects and errors\<close>

text \<open>
  The loader of \<^verbatim>\<open>src/index.js\<close> receives the file as a \<^verbatim>\<open>Buffer\<close> and reads its
  options from an object supplied by the host. Option values are dynamically typed; the
  kinds that the loader distinguishes are modelled by one datatype. A function value is a
  reference: \<open>JFun f\<close> names the function, and the environment says how it behaves when it
  is called (field \<open>call\<close> below). Strings are lists of characters.
\<close>

type_synonym buffer = "8 word list"

datatype jsvalue =
    JUndefined
  | JNull
  | JBool bool
  | JNum int
  | JStr string
  | JRegExp string
  | JFun nat

type_synonym options = "(string \<times> jsvalue) list"

text \<open>
  Everything that can be thrown during one invocation: the validation error of
  \<^verbatim>\<open>schema-utils\<close> (with the offending keys), a \<^verbatim>\<open>TypeError\<close> of the JavaScript runtime
  (a string method or \<^verbatim>\<open>path.posix.join\<close> applied to a value that is not a string, a call
  of a value that is not a function), and whatever a user callback or the host throws.
\<close>

datatype error =
    ConfigurationError "string list"
  | TypeError
  | Thrown string

text \<open>Reading a property: \<^verbatim>\<open>options.k\<close> is \<^verbatim>\<open>undefined\<close> when the key is missing.\<close>

definition getProp :: "options \<Rightarrow> string \<Rightarrow> jsvalue" where
  "getProp opts k = (case map_of opts k of None \<Rightarrow> JUndefined | Some v \<Rightarrow> v)"

text \<open>JavaScript truthiness, as used by \<^verbatim>\<open>if (v)\<close>, \<^verbatim>\<open>v || w\<close> and \<^verbatim>\<open>v ? a : b\<close>.\<close>

fun truthy :: "jsvalue \<Rightarrow> bool" where
  "truthy JUndefined = False"
| "truthy JNull = False"
| "truthy (JBool b) = b"
| "truthy (JNum n) = (n \<noteq> 0)"
| "truthy (JStr s) = (s \<noteq> [])"
| "truthy (JRegExp r) = True"
| "truthy (JFun f) = True"

text \<open>\<^verbatim>\<open>a || b\<close>\<close>

definition js_or :: "jsvalue \<Rightarrow> jsvalue \<Rightarrow> jsvalue" where
  "js_or a b = (if truthy a then a else b)"

fun typeof :: "jsvalue \<Rightarrow> string" where
  "typeof JUndefined = ''undefined''"
| "typeof JNull = ''object''"
| "typeof (JBool b) = ''boolean''"
| "typeof (JNum n) = ''number''"
| "typeof (JStr s) = ''string''"
| "typeof (JRegExp r) = ''object''"
| "typeof (JFun f) = ''function''"

section \<open>Library functions used by the loader\<close>

subsection \<open>\<^verbatim>\<open>String.prototype.endsWith\<close>\<close>

definition endsWith :: "string \<Rightarrow> string \<Rightarrow> bool" where
  "endsWith s t = (length t \<le> length s \<and> drop (length s - length t) s = t)"

subsection \<open>\<^verbatim>\<open>JSON.stringify\<close> on a string\<close>

text \<open>
  \<^verbatim>\<open>JSON.stringify\<close> of a string wraps it in double quotes, escapes the double quote and
  the backslash, writes backspace, tab, line feed, form feed and carriage return as
  \<^verbatim>\<open>\b \t \n \f \r\<close>, every other character below \<^verbatim>\<open>0x20\<close> as \<^verbatim>\<open>\u00xx\<close> with
  lower-case hexadecimal digits, and copies every other character. (JavaScript also
  escapes a surrogate that stands alone; a \<open>char\<close> has eight bits, so there is none here.)
\<close>

definition hexDigit :: "nat \<Rightarrow> char" where
  "hexDigit n = ''0123456789abcdef'' ! (n mod 16)"

definition quoteChar :: "char \<Rightarrow> string" where
  "quoteChar c =
     (if c = CHR 0x22 then [CHR 0x5C, CHR 0x22]
      else if c = CHR 0x5C then [CHR 0x5C, CHR 0x5C]
      else if c = CHR 0x08 then [CHR 0x5C, CHR ''b'']
      else if c = CHR 0x09 then [CHR 0x5C, CHR ''t'']
      else if c = CHR 0x0A then [CHR 0x5C, CHR ''n'']
      else if c = CHR 0x0C then [CHR 0x5C, CHR ''f'']
      else if c = CHR 0x0D then [CHR 0x5C, CHR ''r'']
      else if (of_char c :: nat) < 0x20
        then [CHR 0x5C, CHR ''u'', CHR ''0'', CHR ''0'',
              hexDigit ((of_char c :: nat) div 16), hexDigit (of_char c :: nat)]
      else [c])"

definition JSON_stringify :: "string \<Rightarrow> string" where
  "JSON_stringify s = [CHR 0x22] @ concat (map quoteChar s) @ [CHR 0x22]"

subsection \<open>\<^verbatim>\<open>path.posix.join\<close>\<close>

text \<open>
  Node's \<^verbatim>\<open>path.posix.join\<close> concatenates its non-empty arguments with \<^verbatim>\<open>/\<close> and
  normalises the result: repeated separators and \<^verbatim>\<open>.\<close> segments disappear, a \<^verbatim>\<open>..\<close>
  segment removes the segment before it. The normalisation is Node's loop
  \<^verbatim>\<open>normalizeString(path, allowAboveRoot, '/', isPosixPathSeparator)\<close> over the indices
  \<open>0 .. length path\<close>; \<open>res\<close>, \<open>lastSegmentLength\<close>, \<open>lastSlash\<close>, \<open>dots\<close> and \<open>code\<close> are
  its local variables.
\<close>

definition lastIndexOf :: "string \<Rightarrow> char \<Rightarrow> int" where
  "lastIndexOf s c =
     (case filter (\<lambda>i. s ! i = c) (rev [0..<length s]) of [] \<Rightarrow> - 1 | i # _ \<Rightarrow> int i)"

definition slice :: "string \<Rightarrow> int \<Rightarrow> int \<Rightarrow> string" where
  "slice s a b = take (nat b - nat a) (drop (nat a) s)"

function normalizeString_loop ::
  "string \<Rightarrow> bool \<Rightarrow> nat \<Rightarrow> string \<Rightarrow> int \<Rightarrow> int \<Rightarrow> int \<Rightarrow> char \<Rightarrow> string" where
  "normalizeString_loop path allowAboveRoot i res lastSegmentLength lastSlash dots code =
     (if i \<le> length path then
        (if \<not> i < length path \<and> code = CHR ''/'' then res
         else
           let code = (if i < length path then path ! i else CHR ''/'') in
           if code = CHR ''/'' then
             (if lastSlash = int i - 1 \<or> dots = 1 then
                normalizeString_loop path allowAboveRoot (i + 1)
                  res lastSegmentLength (int i) 0 code
              else if dots = 2 then
                (if length res < 2 \<or> lastSegmentLength \<noteq> 2
                    \<or> res ! (length res - 1) \<noteq> CHR ''.''
                    \<or> res ! (length res - 2) \<noteq> CHR ''.'' then
                   (if length res > 2 then
                      (let lastSlashIndex = lastIndexOf res (CHR ''/'') in
                       if lastSlashIndex = - 1 then
                         normalizeString_loop path allowAboveRoot (i + 1)
                           [] 0 (int i) 0 code
                       else
                         (let res' = slice res 0 lastSlashIndex in
                          normalizeString_loop path allowAboveRoot (i + 1)
                            res' (int (length res') - 1 - lastIndexOf res' (CHR ''/''))
                            (int i) 0 code))
                    else if length res \<noteq> 0 then
                      normalizeString_loop path allowAboveRoot (i + 1)
                        [] 0 (int i) 0 code
                    else if allowAboveRoot then
                      normalizeString_loop path allowAboveRoot (i + 1)
                        (res @ (if length res > 0 then ''/..'' else ''..'')) 2 (int i) 0 code
                    else
                      normalizeString_loop path allowAboveRoot (i + 1)
                        res lastSegmentLength (int i) 0 code)
                 else if allowAboveRoot then
                   normalizeString_loop path allowAboveRoot (i + 1)
                     (res @ (if length res > 0 then ''/..'' else ''..'')) 2 (int i) 0 code
                 else
                   normalizeString_loop path allowAboveRoot (i + 1)
                     res lastSegmentLength (int i) 0 code)
              else
                normalizeString_loop path allowAboveRoot (i + 1)
                  (if length res > 0 then res @ ''/'' @ slice path (lastSlash + 1) (int i)
                   else slice path (lastSlash + 1) (int i))
                  (int i - lastSlash - 1) (int i) 0 code)
           else if code = CHR ''.'' \<and> dots \<noteq> - 1 then
             normalizeString_loop path allowAboveRoot (i + 1)
               res lastSegmentLength lastSlash (dots + 1) code
           else
             normalizeString_loop path allowAboveRoot (i + 1)
               res lastSegmentLength lastSlash (- 1) code)
      else res)"
  by pat_completeness auto
termination
  by (relation "measure (\<lambda>(path, a, i, r). Suc (length path) - i)") auto

definition normalizeString :: "string \<Rightarrow> bool \<Rightarrow> string" where
  "normalizeString path allowAboveRoot =
     normalizeString_loop path allowAboveRoot 0 [] 0 (- 1) 0 (CHR 0x00)"

definition posix_normalize :: "string \<Rightarrow> string" where
  "posix_normalize path =
     (if length path = 0 then ''.''
      else
        let isAbsolute = (path ! 0 = CHR ''/'');
            trailingSeparator = (path ! (length path - 1) = CHR ''/'');
            p = normalizeString path (\<not> isAbsolute)
        in if length p = 0 then
             (if isAbsolute then ''/'' else if trailingSeparator then ''./'' else ''.'')
           else
             (let p' = (if trailingSeparator then p @ ''/'' else p)
              in if isAbsolute then ''/'' @ p' else p'))"

fun posix_join_args :: "string list \<Rightarrow> string option \<Rightarrow> string option" where
  "posix_join_args [] joined = joined"
| "posix_join_args (arg # args) joined =
     posix_join_args args
       (if length arg > 0 then
          (case joined of None \<Rightarrow> Some arg | Some j \<Rightarrow> Some (j @ ''/'' @ arg))
        else joined)"

definition posix_join :: "string list \<Rightarrow> string" where
  "posix_join args =
     (case posix_join_args args None of None \<Rightarrow> ''.'' | Some joined \<Rightarrow> posix_normalize joined)"

section \<open>The host environment\<close>

text \<open>
  \<open>this\<close> of the loader is webpack's loader context. The model keeps what the loader
  reads from it and the collaborators it calls:
  \<^item> \<open>query\<close>: what \<^verbatim>\<open>loaderUtils.getOptions(this)\<close> returns, \<^verbatim>\<open>null\<close> (\<open>None\<close>) or the
    options object;
  \<^item> \<open>rootContext\<close> and \<open>resourcePath\<close>;
  \<^item> \<open>interpolateName\<close>: \<^verbatim>\<open>loaderUtils.interpolateName(this, name, {context, content, regExp})\<close>,
    as a function of the template, the context, the content and the regular expression;
  \<^item> \<open>emitFile\<close>: whether the host's \<^verbatim>\<open>this.emitFile(path, content)\<close> returns (\<open>None\<close>) or
    throws;
  \<^item> \<open>call\<close>: the behaviour of the function values found in the options: called with a
    list of arguments, a function returns a string or throws.
\<close>

record loader_context =
  query :: "options option"
  rootContext :: string
  resourcePath :: string
  interpolateName :: "jsvalue \<Rightarrow> jsvalue \<Rightarrow> buffer \<Rightarrow> jsvalue \<Rightarrow> string"
  emitFile :: "string \<Rightarrow> buffer \<Rightarrow> error option"
  call :: "nat \<Rightarrow> jsvalue list \<Rightarrow> error + string"

text \<open>
  The calls that an invocation makes to its collaborators are recorded in order. The
  record of all calls made so far is the state that an invocation reads and extends; the
  files given to the host are the \<open>EmitFile\<close> entries.
\<close>

datatype event =
    InterpolateName jsvalue jsvalue buffer jsvalue
  | Call nat "jsvalue list"
  | EmitFile string buffer

fun emitted :: "event list \<Rightarrow> (string \<times> buffer) list" where
  "emitted [] = []"
| "emitted (EmitFile p c # es) = (p, c) # emitted es"
| "emitted (InterpolateName t x c r # es) = emitted es"
| "emitted (Call f args # es) = emitted es"

text \<open>
  A computation takes the record of calls and returns the extended record with either
  the thrown error or a value. \<open>andThen\<close> is sequencing of statements: an error ends the
  invocation.
\<close>

type_synonym 'a eff = "event list \<Rightarrow> event list \<times> (error + 'a)"

definition ret :: "'a \<Rightarrow> 'a eff" where
  "ret x h = (h, Inr x)"

definition throw :: "error \<Rightarrow> 'a eff" where
  "throw e h = (h, Inl e)"

definition andThen :: "'a eff \<Rightarrow> ('a \<Rightarrow> 'b eff) \<Rightarrow> 'b eff" where
  "andThen m k h = (case m h of (h', Inl e) \<Rightarrow> (h', Inl e) | (h', Inr x) \<Rightarrow> k x h')"

definition do_interpolateName ::
  "loader_context \<Rightarrow> jsvalue \<Rightarrow> jsvalue \<Rightarrow> buffer \<Rightarrow> jsvalue \<Rightarrow> string eff" where
  "do_interpolateName this template context content regExp h =
     (h @ [InterpolateName template context content regExp],
      Inr (interpolateName this template context content regExp))"

definition do_call :: "loader_context \<Rightarrow> nat \<Rightarrow> jsvalue list \<Rightarrow> string eff" where
  "do_call this f args h = (h @ [Call f args], call this f args)"

definition do_emitFile :: "loader_context \<Rightarrow> string \<Rightarrow> buffer \<Rightarrow> unit eff" where
  "do_emitFile this p content h =
     (h @ [EmitFile p content],
      case emitFile this p content of None \<Rightarrow> Inr () | Some e \<Rightarrow> Inl e)"

section \<open>Options and their validation\<close>

text \<open>\<^verbatim>\<open>const options = loaderUtils.getOptions(this) || {};\<close>\<close>

definition getOptions :: "loader_context \<Rightarrow> options" where
  "getOptions this = (case query this of None \<Rightarrow> [] | Some q \<Rightarrow> q)"

datatype jstype = TString | TBoolean | TFunction | TRegExp

fun hasType :: "jsvalue \<Rightarrow> jstype \<Rightarrow> bool" where
  "hasType (JStr s) TString = True"
| "hasType (JBool b) TBoolean = True"
| "hasType (JFun f) TFunction = True"
| "hasType (JRegExp r) TRegExp = True"
| "hasType v t = False"

record json_schema =
  properties :: "(string \<times> jstype list) list"
  additionalProperties :: bool

text \<open>
  Modelled from the spec: the contents of \<^verbatim>\<open>src/options.json\<close>, which is imported by
  \<^verbatim>\<open>src/index.js\<close> and is not among the sources. The specification gives the recognised
  options as \<^verbatim>\<open>{context?: string, name?: string, outputPath?: string|function,
  publicPath?: string|function, postTransformPublicPath?: function, emitFile?: boolean,
  esModule?: boolean, regExp?: string|RegExp}\<close>, with no unrecognised keys permitted.
\<close>

definition schema :: json_schema where
  "schema =
     \<lparr> properties =
         [(''context'', [TString]),
          (''name'', [TString]),
          (''outputPath'', [TString, TFunction]),
          (''publicPath'', [TString, TFunction]),
          (''postTransformPublicPath'', [TFunction]),
          (''emitFile'', [TBoolean]),
          (''esModule'', [TBoolean]),
          (''regExp'', [TString, TRegExp])],
       additionalProperties = False \<rparr>"

text \<open>
  \<^verbatim>\<open>validateOptions(schema, options, ...)\<close> of \<^verbatim>\<open>schema-utils\<close>: every key of the object
  must be a property of the schema (unless additional properties are allowed), and a
  property that is not \<^verbatim>\<open>undefined\<close> must have one of the types listed for it. The result
  is the error thrown, with the offending keys, or \<open>None\<close>.
\<close>

definition conforms :: "json_schema \<Rightarrow> string \<times> jsvalue \<Rightarrow> bool" where
  "conforms sch kv =
     (case map_of (properties sch) (fst kv) of
        None \<Rightarrow> additionalProperties sch
      | Some ts \<Rightarrow> snd kv = JUndefined \<or> list_ex (hasType (snd kv)) ts)"

definition validateOptions :: "json_schema \<Rightarrow> options \<Rightarrow> error option" where
  "validateOptions sch opts =
     (case filter (\<lambda>kv. \<not> conforms sch kv) opts of
        [] \<Rightarrow> None
      | bad # rest \<Rightarrow> Some (ConfigurationError (map fst (bad # rest))))"

section \<open>The loader\<close>

text \<open>
  Lines 43 to 53: \<open>outputPath\<close> starts as \<open>url\<close>; a truthy \<^verbatim>\<open>options.outputPath\<close> replaces
  it, by a call when it is a function and by \<^verbatim>\<open>path.posix.join\<close> otherwise, which throws a
  \<^verbatim>\<open>TypeError\<close> when its argument is not a string.
\<close>

definition resolve_outputPath ::
  "loader_context \<Rightarrow> options \<Rightarrow> string \<Rightarrow> jsvalue \<Rightarrow> string eff" where
  "resolve_outputPath this opts url context =
     (if truthy (getProp opts ''outputPath'') then
        (case getProp opts ''outputPath'' of
           JFun f \<Rightarrow> do_call this f [JStr url, JStr (resourcePath this), context]
         | JStr s \<Rightarrow> ret (posix_join [s, url])
         | _ \<Rightarrow> throw TypeError)
      else ret url)"

text \<open>
  Lines 59 to 74: the default is the concatenation with the global
  \<^verbatim>\<open>__webpack_public_path__\<close>. A truthy \<^verbatim>\<open>options.publicPath\<close> replaces it: the result of the
  call when it is a function, otherwise the string made to end with \<^verbatim>\<open>/\<close> followed by
  \<open>url\<close> (\<^verbatim>\<open>endsWith\<close> is not a function on a value that is not a string); in both
  cases line 73 then applies \<^verbatim>\<open>JSON.stringify\<close>.
\<close>

definition resolve_publicPath ::
  "loader_context \<Rightarrow> options \<Rightarrow> string \<Rightarrow> jsvalue \<Rightarrow> string \<Rightarrow> string eff" where
  "resolve_publicPath this opts url context outputPath =
     (if truthy (getProp opts ''publicPath'') then
        andThen
          (case getProp opts ''publicPath'' of
             JFun f \<Rightarrow> do_call this f [JStr url, JStr (resourcePath this), context]
           | JStr s \<Rightarrow> ret ((if endsWith s ''/'' then s else s @ ''/'') @ url)
           | _ \<Rightarrow> throw TypeError)
          (\<lambda>publicPath. ret (JSON_stringify publicPath))
      else ret (''__webpack_public_path__ + '' @ JSON_stringify outputPath))"

text \<open>Lines 79 to 81: a truthy \<^verbatim>\<open>options.postTransformPublicPath\<close> is called.\<close>

definition postTransform :: "loader_context \<Rightarrow> options \<Rightarrow> string \<Rightarrow> string eff" where
  "postTransform this opts publicPath =
     (if truthy (getProp opts ''postTransformPublicPath'') then
        (case getProp opts ''postTransformPublicPath'' of
           JFun f \<Rightarrow> do_call this f [JStr publicPath]
         | _ \<Rightarrow> throw TypeError)
      else ret publicPath)"

text \<open>Lines 84 to 87.\<close>

definition emit :: "loader_context \<Rightarrow> options \<Rightarrow> string \<Rightarrow> buffer \<Rightarrow> unit eff" where
  "emit this opts outputPath content =
     (if typeof (getProp opts ''emitFile'') = ''undefined'' \<or> truthy (getProp opts ''emitFile'')
      then do_emitFile this outputPath content
      else ret ())"

text \<open>Lines 89 to 92.\<close>

definition generate :: "options \<Rightarrow> string \<Rightarrow> string" where
  "generate opts publicPath =
     (let esModule =
            (if typeof (getProp opts ''esModule'') \<noteq> ''undefined''
             then getProp opts ''esModule'' else JBool True)
      in (if truthy esModule then ''export default'' else ''module.exports ='')
           @ '' '' @ publicPath @ '';'')"

text \<open>
  The local variables \<open>context\<close> (line 29) and \<open>url\<close> (lines 32 to 40), as functions of the
  environment and the content.
\<close>

definition contextOf :: "loader_context \<Rightarrow> jsvalue" where
  "contextOf this = js_or (getProp (getOptions this) ''context'') (JStr (rootContext this))"

definition templateOf :: "loader_context \<Rightarrow> jsvalue" where
  "templateOf this = js_or (getProp (getOptions this) ''name'') (JStr ''[contenthash].[ext]'')"

definition urlOf :: "loader_context \<Rightarrow> buffer \<Rightarrow> string" where
  "urlOf this content =
     interpolateName this (templateOf this) (contextOf this) content
       (getProp (getOptions this) ''regExp'')"

text \<open>The function \<^verbatim>\<open>loader\<close> of \<^verbatim>\<open>src/index.js\<close>, statement by statement.\<close>

definition loader :: "loader_context \<Rightarrow> buffer \<Rightarrow> string eff" where
  "loader this content =
     (let opts = getOptions this in
      andThen
        (case validateOptions schema opts of Some e \<Rightarrow> throw e | None \<Rightarrow> ret ())
        (\<lambda>_.
      let context = js_or (getProp opts ''context'') (JStr (rootContext this)) in
      andThen
        (do_interpolateName this
           (js_or (getProp opts ''name'') (JStr ''[contenthash].[ext]''))
           context content (getProp opts ''regExp''))
        (\<lambda>url.
      andThen (resolve_outputPath this opts url context) (\<lambda>outputPath.
      andThen (resolve_publicPath this opts url context outputPath) (\<lambda>publicPath.
      andThen (postTransform this opts publicPath) (\<lambda>publicPath.
      andThen (emit this opts outputPath content) (\<lambda>_.
      ret (generate opts publicPath))))))))"

section \<open>Notions used in the statements\<close>

text \<open>The call of \<^verbatim>\<open>interpolateName\<close> that an invocation makes (lines 32 to 40).\<close>

definition interpolation :: "loader_context \<Rightarrow> buffer \<Rightarrow> event" where
  "interpolation this content =
     InterpolateName (templateOf this) (contextOf this) content
       (getProp (getOptions this) ''regExp'')"

text \<open>The condition of line 84.\<close>

definition emitEnabled :: "options \<Rightarrow> bool" where
  "emitEnabled opts =
     (typeof (getProp opts ''emitFile'') = ''undefined'' \<or> truthy (getProp opts ''emitFile''))"

text \<open>
  A step that makes no call and returns, or calls one user function and ends with what
  the function does.
\<close>

definition callsOnly :: "loader_context \<Rightarrow> 'a eff \<Rightarrow> bool" where
  "callsOnly this m =
     (\<forall>h. (\<exists>x. m h = (h, Inr x))
        \<or> (\<exists>f args e. call this f args = Inl e \<and> m h = (h @ [Call f args], Inl e))
        \<or> (\<exists>f args v x. call this f args = Inr v \<and> m h = (h @ [Call f args], Inr x)))"

text \<open>A throwing callback ends the computation, and nothing is emitted.\<close>

definition stopsAtThrow :: "loader_context \<Rightarrow> 'a eff \<Rightarrow> bool" where
  "stopsAtThrow this m =
     (\<forall>h. \<exists>evs. fst (m h) = h @ evs \<and>
        (\<forall>f args e. Call f args \<in> set evs \<longrightarrow> call this f args = Inl e \<longrightarrow>
           snd (m h) = Inl e \<and> emitted evs = []))"

text \<open>An error of the computation was thrown by a callback or by the host's \<open>emitFile\<close>.\<close>

definition errorsFromCollaborators :: "loader_context \<Rightarrow> buffer \<Rightarrow> 'a eff \<Rightarrow> bool" where
  "errorsFromCollaborators this content m =
     (\<forall>h. \<exists>evs. fst (m h) = h @ evs \<and>
        (\<forall>e. snd (m h) = Inl e \<longrightarrow>
           (\<exists>f args. Call f args \<in> set evs \<and> call this f args = Inl e)
         \<or> (\<exists>p. EmitFile p content \<in> set evs \<and> emitFile this p content = Some e)))"

section \<open>An example environment\<close>

text \<open>
  A host for the concrete runs below: the default template gives the name
  \<^verbatim>\<open>abc123.png\<close>, any other template is returned as it is; the host accepts every file;
  function 0 maps a name to a path under \<^verbatim>\<open>assets/\<close>, function 1 appends to the
  expression it is given, every other function throws.
\<close>

definition example_interpolateName :: "jsvalue \<Rightarrow> jsvalue \<Rightarrow> buffer \<Rightarrow> jsvalue \<Rightarrow> string" where
  "example_interpolateName template context content regExp =
     (case template of
        JStr t \<Rightarrow> if t = ''[contenthash].[ext]'' then ''abc123.png'' else t
      | _ \<Rightarrow> ''abc123.png'')"

definition example_call :: "nat \<Rightarrow> jsvalue list \<Rightarrow> error + string" where
  "example_call f args =
     (if f = 0 then
        (case args of
           [JStr url, JStr path, ctx] \<Rightarrow> Inr (''assets/'' @ url)
         | _ \<Rightarrow> Inl (Thrown ''unexpected arguments''))
      else if f = 1 then
        (case args of
           [JStr p] \<Rightarrow> Inr (p @ '' + VERSION'')
         | _ \<Rightarrow> Inl (Thrown ''unexpected arguments''))
      else Inl (Thrown ''callback failed''))"

definition example_this :: "options \<Rightarrow> loader_context" where
  "example_this opts =
     \<lparr> query = Some opts,
       rootContext = ''/project'',
       resourcePath = ''/project/src/logo.png'',
       interpolateName = example_interpolateName,
       emitFile = (\<lambda>p c. None),
       call = example_call \<rparr>"

section \<open>The loader over a mutable world\<close>

text \<open>
  In JavaScript the options object and the \<^verbatim>\<open>Buffer\<close> are shared, mutable objects, and a
  user callback or the host may keep state of its own and may write to anything it can
  reach. To say what a second invocation sees, the loader is written once more over a
  world that holds
  \<^item> \<open>w_options\<close>: the present contents of the object that line 16 binds to \<^verbatim>\<open>options\<close>;
  \<^item> \<open>w_rootContext\<close>, \<open>w_resourcePath\<close>: the present values of these properties of \<^verbatim>\<open>this\<close>;
  \<^item> \<open>w_content\<close>: the present contents of the buffer passed as \<^verbatim>\<open>content\<close>;
  \<^item> \<open>w_hidden\<close>: everything else (the state of the host and of the callbacks' closures).
  The inputs of an invocation are all fields but the last.
\<close>

record 'x world =
  w_options :: options
  w_rootContext :: string
  w_resourcePath :: string
  w_content :: buffer
  w_hidden :: 'x

text \<open>
  A collaborator receives its arguments and the world, and returns its result and the
  world it leaves. The buffer is passed by reference: the collaborator finds it in the
  world.
\<close>

record 'x collaborators =
  c_interpolateName :: "jsvalue \<Rightarrow> jsvalue \<Rightarrow> jsvalue \<Rightarrow> 'x world \<Rightarrow> string \<times> 'x world"
  c_emitFile :: "string \<Rightarrow> 'x world \<Rightarrow> error option \<times> 'x world"
  c_call :: "nat \<Rightarrow> jsvalue list \<Rightarrow> 'x world \<Rightarrow> (error + string) \<times> 'x world"

type_synonym ('x, 'a) step = "'x world \<Rightarrow> (error + 'a) \<times> 'x world"

text \<open>Reading from the world, and sequencing of statements.\<close>

definition read_w :: "('x world \<Rightarrow> 'a) \<Rightarrow> ('x, 'a) step" where
  "read_w f w = (Inr (f w), w)"

definition andThen_w :: "('x, 'a) step \<Rightarrow> ('a \<Rightarrow> ('x, 'b) step) \<Rightarrow> ('x, 'b) step" where
  "andThen_w m k w = (case m w of (Inl e, w') \<Rightarrow> (Inl e, w') | (Inr x, w') \<Rightarrow> k x w')"

text \<open>Lines 21 to 24.\<close>

definition validate_w :: "('x, unit) step" where
  "validate_w w =
     (case validateOptions schema (w_options w) of Some e \<Rightarrow> Inl e | None \<Rightarrow> Inr (), w)"

text \<open>Lines 32 to 40.\<close>

definition interpolate_w :: "'x collaborators \<Rightarrow> jsvalue \<Rightarrow> ('x, string) step" where
  "interpolate_w C context w =
     (case c_interpolateName C
             (js_or (getProp (w_options w) ''name'') (JStr ''[contenthash].[ext]''))
             context (getProp (w_options w) ''regExp'') w of
        (url, w') \<Rightarrow> (Inr url, w'))"

text \<open>Lines 43 to 53.\<close>

definition outputPath_w ::
  "'x collaborators \<Rightarrow> string \<Rightarrow> jsvalue \<Rightarrow> ('x, string) step" where
  "outputPath_w C url context w =
     (if truthy (getProp (w_options w) ''outputPath'') then
        (case getProp (w_options w) ''outputPath'' of
           JFun f \<Rightarrow> c_call C f [JStr url, JStr (w_resourcePath w), context] w
         | JStr s \<Rightarrow> (Inr (posix_join [s, url]), w)
         | _ \<Rightarrow> (Inl TypeError, w))
      else (Inr url, w))"

text \<open>Lines 59 to 74.\<close>

definition publicPath_w ::
  "'x collaborators \<Rightarrow> string \<Rightarrow> jsvalue \<Rightarrow> string \<Rightarrow> ('x, string) step" where
  "publicPath_w C url context outputPath w =
     (if truthy (getProp (w_options w) ''publicPath'') then
        andThen_w
          (\<lambda>w. case getProp (w_options w) ''publicPath'' of
                 JFun f \<Rightarrow> c_call C f [JStr url, JStr (w_resourcePath w), context] w
               | JStr s \<Rightarrow> (Inr ((if endsWith s ''/'' then s else s @ ''/'') @ url), w)
               | _ \<Rightarrow> (Inl TypeError, w))
          (\<lambda>publicPath. read_w (\<lambda>w. JSON_stringify publicPath)) w
      else (Inr (''__webpack_public_path__ + '' @ JSON_stringify outputPath), w))"

text \<open>Lines 79 to 81.\<close>

definition postTransform_w :: "'x collaborators \<Rightarrow> string \<Rightarrow> ('x, string) step" where
  "postTransform_w C publicPath w =
     (if truthy (getProp (w_options w) ''postTransformPublicPath'') then
        (case getProp (w_options w) ''postTransformPublicPath'' of
           JFun f \<Rightarrow> c_call C f [JStr publicPath] w
         | _ \<Rightarrow> (Inl TypeError, w))
      else (Inr publicPath, w))"

text \<open>Lines 84 to 87.\<close>

definition emit_w :: "'x collaborators \<Rightarrow> string \<Rightarrow> ('x, unit) step" where
  "emit_w C outputPath w =
     (if typeof (getProp (w_options w) ''emitFile'') = ''undefined''
           \<or> truthy (getProp (w_options w) ''emitFile'')
      then (case c_emitFile C outputPath w of
              (None, w') \<Rightarrow> (Inr (), w')
            | (Some e, w') \<Rightarrow> (Inl e, w'))
      else (Inr (), w))"

text \<open>
  The function \<^verbatim>\<open>loader\<close>: every read of \<^verbatim>\<open>options\<close> and of \<^verbatim>\<open>this\<close> is a read of the
  world as the preceding statements have left it.
\<close>

definition loader_w :: "'x collaborators \<Rightarrow> ('x, string) step" where
  "loader_w C =
     andThen_w validate_w (\<lambda>_.
     andThen_w
       (read_w (\<lambda>w. js_or (getProp (w_options w) ''context'') (JStr (w_rootContext w))))
       (\<lambda>context.
     andThen_w (interpolate_w C context) (\<lambda>url.
     andThen_w (outputPath_w C url context) (\<lambda>outputPath.
     andThen_w (publicPath_w C url context outputPath) (\<lambda>publicPath.
     andThen_w (postTransform_w C publicPath) (\<lambda>publicPath.
     andThen_w (emit_w C outputPath) (\<lambda>_.
     read_w (\<lambda>w. generate (w_options w) publicPath))))))))"

text \<open>Two worlds with the same inputs.\<close>

definition same_inputs :: "'x world \<Rightarrow> 'x world \<Rightarrow> bool" where
  "same_inputs w w' =
     (w_options w = w_options w' \<and> w_rootContext w = w_rootContext w'
      \<and> w_resourcePath w = w_resourcePath w' \<and> w_content w = w_content w')"

text \<open>
  Deterministic collaborators: called with the same arguments in worlds with the same
  inputs, a collaborator gives the same result and leaves worlds with the same inputs.
  Its own state may differ and may change.
\<close>

definition deterministic :: "'x collaborators \<Rightarrow> bool" where
  "deterministic C =
     (\<forall>w w'. same_inputs w w' \<longrightarrow>
        (\<forall>t c r. fst (c_interpolateName C t c r w) = fst (c_interpolateName C t c r w')
           \<and> same_inputs (snd (c_interpolateName C t c r w)) (snd (c_interpolateName C t c r w')))
      \<and> (\<forall>p. fst (c_emitFile C p w) = fst (c_emitFile C p w')
           \<and> same_inputs (snd (c_emitFile C p w)) (snd (c_emitFile C p w')))
      \<and> (\<forall>f args. fst (c_call C f args w) = fst (c_call C f args w')
           \<and> same_inputs (snd (c_call C f args w)) (snd (c_call C f args w'))))"

text \<open>Collaborators that leave the inputs as they found them.\<close>

definition preserves_inputs :: "'x collaborators \<Rightarrow> bool" where
  "preserves_inputs C =
     (\<forall>w. (\<forall>t c r. same_inputs (snd (c_interpolateName C t c r w)) w)
        \<and> (\<forall>p. same_inputs (snd (c_emitFile C p w)) w)
        \<and> (\<forall>f args. same_inputs (snd (c_call C f args w)) w))"

text \<open>The same two properties of a step.\<close>

definition determined :: "('x, 'a) step \<Rightarrow> bool" where
  "determined m =
     (\<forall>w w'. same_inputs w w' \<longrightarrow>
        fst (m w) = fst (m w') \<and> same_inputs (snd (m w)) (snd (m w')))"

definition keeps :: "('x, 'a) step \<Rightarrow> bool" where
  "keeps m = (\<forall>w. same_inputs (snd (m w)) w)"

text \<open>
  The environment of the first model as a world and collaborators: its collaborators
  are functions of their arguments and change nothing.
\<close>

definition world_of :: "loader_context \<Rightarrow> buffer \<Rightarrow> 'x \<Rightarrow> 'x world" where
  "world_of this content x =
     \<lparr> w_options = getOptions this,
       w_rootContext = rootContext this,
       w_resourcePath = resourcePath this,
       w_content = content,
       w_hidden = x \<rparr>"

definition collaborators_of :: "loader_context \<Rightarrow> 'x collaborators" where
  "collaborators_of this =
     \<lparr> c_interpolateName = (\<lambda>t c r w. (interpolateName this t c (w_content w) r, w)),
       c_emitFile = (\<lambda>p w. (emitFile this p (w_content w), w)),
       c_call = (\<lambda>f args w. (call this f args, w)) \<rparr>"

text \<open>
  Example collaborators with state of their own: each counts in \<open>w_hidden\<close> the calls
  made to it and to the others, and otherwise behaves as in the example environment.
\<close>

definition counting_collaborators :: "nat collaborators" where
  "counting_collaborators =
     \<lparr> c_interpolateName =
         (\<lambda>t c r w. (example_interpolateName t c (w_content w) r,
                     w\<lparr>w_hidden := Suc (w_hidden w)\<rparr>)),
       c_emitFile = (\<lambda>p w. (None, w\<lparr>w_hidden := Suc (w_hidden w)\<rparr>)),
       c_call = (\<lambda>f args w. (example_call f args, w\<lparr>w_hidden := Suc (w_hidden w)\<rparr>)) \<rparr>"

definition example_world :: "options \<Rightarrow> nat \<Rightarrow> nat world" where
  "example_world opts n =
     \<lparr> w_options = opts,
       w_rootContext = ''/project'',
       w_resourcePath = ''/project/src/logo.png'',
       w_content = [0x89, 0x50],
       w_hidden = n \<rparr>"

text \<open>
  Collaborators that are not deterministic in this sense: function 0 returns the number
  of earlier calls, as a string of that many asterisks.
\<close>

definition leaking_collaborators :: "nat collaborators" where
  "leaking_collaborators =
     counting_collaborators
       \<lparr> c_call := (\<lambda>f args w. (Inr (replicate (w_hidden w) (CHR ''*'')),
                                 w\<lparr>w_hidden := Suc (w_hidden w)\<rparr>)) \<rparr>"

section \<open>Auxiliary facts\<close>

lemmas evaluation =
  loader_def Let_def getOptions_def validateOptions_def schema_def conforms_def
  getProp_def andThen_def ret_def throw_def js_or_def do_interpolateName_def do_call_def
  resolve_outputPath_def resolve_publicPath_def postTransform_def emit_def generate_def
  do_emitFile_def endsWith_def JSON_stringify_def quoteChar_def example_this_def
  example_interpolateName_def example_call_def contextOf_def templateOf_def urlOf_def
  interpolation_def emitEnabled_def posix_join_def posix_normalize_def normalizeString_def
  slice_def lastIndexOf_def hexDigit_def

lemma emitted_append: "emitted (xs @ ys) = emitted xs @ emitted ys"
  by (induction xs rule: emitted.induct) simp_all

lemma validateOptions_None:
  "validateOptions sch opts = None \<longleftrightarrow> list_all (conforms sch) opts"
  by (induction opts) (auto simp: validateOptions_def split: list.splits)

lemma valid_getProp:
  assumes "validateOptions sch opts = None"
    and "map_of (properties sch) k = Some ts"
  shows "getProp opts k = JUndefined \<or> list_ex (hasType (getProp opts k)) ts"
proof (cases "map_of opts k")
  case None
  then show ?thesis by (simp add: getProp_def)
next
  case (Some v)
  then have "(k, v) \<in> set opts" by (rule map_of_SomeD)
  with assms(1) have "conforms sch (k, v)"
    by (simp add: validateOptions_None list_all_iff)
  with assms(2) Some show ?thesis
    by (simp add: conforms_def getProp_def)
qed

lemma hasType_TString: "hasType v TString \<longleftrightarrow> (\<exists>s. v = JStr s)"
  by (cases v) simp_all

lemma hasType_TFunction: "hasType v TFunction \<longleftrightarrow> (\<exists>f. v = JFun f)"
  by (cases v) simp_all

lemma valid_outputPath:
  assumes "validateOptions schema opts = None"
  shows "getProp opts ''outputPath'' = JUndefined \<or> (\<exists>s. getProp opts ''outputPath'' = JStr s)
         \<or> (\<exists>f. getProp opts ''outputPath'' = JFun f)"
  using valid_getProp [OF assms, of "''outputPath''" "[TString, TFunction]"]
  by (simp add: schema_def hasType_TString hasType_TFunction)

lemma valid_publicPath:
  assumes "validateOptions schema opts = None"
  shows "getProp opts ''publicPath'' = JUndefined \<or> (\<exists>s. getProp opts ''publicPath'' = JStr s)
         \<or> (\<exists>f. getProp opts ''publicPath'' = JFun f)"
  using valid_getProp [OF assms, of "''publicPath''" "[TString, TFunction]"]
  by (simp add: schema_def hasType_TString hasType_TFunction)

lemma valid_postTransformPublicPath:
  assumes "validateOptions schema opts = None"
  shows "getProp opts ''postTransformPublicPath'' = JUndefined
         \<or> (\<exists>f. getProp opts ''postTransformPublicPath'' = JFun f)"
  using valid_getProp [OF assms, of "''postTransformPublicPath''" "[TFunction]"]
  by (simp add: schema_def hasType_TFunction)

lemma valid_context:
  assumes "validateOptions schema opts = None"
  shows "getProp opts ''context'' = JUndefined \<or> (\<exists>s. getProp opts ''context'' = JStr s)"
  using valid_getProp [OF assms, of "''context''" "[TString]"]
  by (simp add: schema_def hasType_TString)

lemma loader_invalid:
  "validateOptions schema (getOptions this) = Some e \<Longrightarrow> loader this content h = (h, Inl e)"
  by (simp add: loader_def Let_def andThen_def throw_def)

lemma loader_valid:
  assumes "validateOptions schema (getOptions this) = None"
  shows "loader this content h =
    andThen (resolve_outputPath this (getOptions this) (urlOf this content) (contextOf this))
      (\<lambda>outputPath.
       andThen (resolve_publicPath this (getOptions this) (urlOf this content)
                  (contextOf this) outputPath)
         (\<lambda>publicPath.
          andThen (postTransform this (getOptions this) publicPath)
            (\<lambda>publicPath.
             andThen (emit this (getOptions this) outputPath content)
               (\<lambda>_. ret (generate (getOptions this) publicPath)))))
      (h @ [interpolation this content])"
  using assms
  by (simp add: loader_def Let_def andThen_def [of "ret ()"]
      andThen_def [of "do_interpolateName _ _ _ _ _"] ret_def [of "()"]
      do_interpolateName_def urlOf_def contextOf_def templateOf_def interpolation_def)

lemma emit_eq:
  "emit this opts outputPath content h =
     (h @ (if emitEnabled opts then [EmitFile outputPath content] else []),
      if emitEnabled opts
      then (case emitFile this outputPath content of None \<Rightarrow> Inr () | Some e \<Rightarrow> Inl e)
      else Inr ())"
  by (simp add: emit_def emitEnabled_def do_emitFile_def ret_def)

lemma loader_run:
  assumes "validateOptions schema (getOptions this) = None"
    and "resolve_outputPath this (getOptions this) (urlOf this content) (contextOf this)
           (h @ [interpolation this content]) = (h1, Inr outputPath)"
    and "resolve_publicPath this (getOptions this) (urlOf this content) (contextOf this)
           outputPath h1 = (h2, Inr publicPath)"
    and "postTransform this (getOptions this) publicPath h2 = (h3, Inr publicPath')"
    and "emit this (getOptions this) outputPath content h3 = (h4, Inr ())"
  shows "loader this content h = (h4, Inr (generate (getOptions this) publicPath'))"
  using assms(2-5) by (simp add: loader_valid [OF assms(1)] andThen_def ret_def)

lemma loader_steps:
  assumes "validateOptions schema (getOptions this) = None"
    and "resolve_outputPath this (getOptions this) (urlOf this content) (contextOf this)
           (h @ [interpolation this content]) = (h1, Inr outputPath)"
    and "resolve_publicPath this (getOptions this) (urlOf this content) (contextOf this)
           outputPath h1 = (h2, Inr publicPath)"
    and "postTransform this (getOptions this) publicPath h2 = (h3, Inr publicPath')"
  shows "loader this content h =
           (h3 @ (if emitEnabled (getOptions this) then [EmitFile outputPath content] else []),
            if emitEnabled (getOptions this)
            then (case emitFile this outputPath content of
                    None \<Rightarrow> Inr (generate (getOptions this) publicPath')
                  | Some e \<Rightarrow> Inl e)
            else Inr (generate (getOptions this) publicPath'))"
  using assms(2-4)
  by (simp add: loader_valid [OF assms(1)] andThen_def ret_def emit_eq split: option.splits)

subsection \<open>Steps that call user functions\<close>

lemma callsOnly_do_call: "callsOnly this (do_call this f args)"
  unfolding callsOnly_def do_call_def by (cases "call this f args") auto

lemma callsOnly_ret: "callsOnly this (ret x)"
  unfolding callsOnly_def ret_def by simp

lemma callsOnly_resolve_outputPath:
  assumes "validateOptions schema opts = None"
  shows "callsOnly this (resolve_outputPath this opts url ctx)"
  using valid_outputPath [OF assms]
  by (auto simp: resolve_outputPath_def callsOnly_do_call callsOnly_ret)

lemma callsOnly_resolve_publicPath:
  assumes "validateOptions schema opts = None"
  shows "callsOnly this (resolve_publicPath this opts url ctx op)"
proof -
  have "callsOnly this (andThen (do_call this f args) (\<lambda>p. ret (JSON_stringify p)))" for f args
    unfolding callsOnly_def do_call_def andThen_def ret_def
    by (cases "call this f args") auto
  moreover have "andThen (ret x) (\<lambda>p. ret (JSON_stringify p)) = ret (JSON_stringify x)" for x
    by (rule ext) (simp add: andThen_def ret_def)
  ultimately show ?thesis
    using valid_publicPath [OF assms]
    by (auto simp: resolve_publicPath_def callsOnly_ret)
qed

lemma callsOnly_postTransform:
  assumes "validateOptions schema opts = None"
  shows "callsOnly this (postTransform this opts pp)"
  using valid_postTransformPublicPath [OF assms]
  by (auto simp: postTransform_def callsOnly_do_call callsOnly_ret)

subsection \<open>A throwing callback ends the invocation\<close>

lemma stopsAtThrow_andThen:
  assumes S: "callsOnly this S" and k: "\<And>x. stopsAtThrow this (k x)"
  shows "stopsAtThrow this (andThen S k)"
  unfolding stopsAtThrow_def
proof
  fix h
  from S have "(\<exists>x. S h = (h, Inr x))
        \<or> (\<exists>f args e. call this f args = Inl e \<and> S h = (h @ [Call f args], Inl e))
        \<or> (\<exists>f args v x. call this f args = Inr v \<and> S h = (h @ [Call f args], Inr x))"
    unfolding callsOnly_def by blast
  then consider
      (pure) x where "S h = (h, Inr x)"
    | (fails) f args e where "call this f args = Inl e" "S h = (h @ [Call f args], Inl e)"
    | (returns) f args v x where "call this f args = Inr v" "S h = (h @ [Call f args], Inr x)"
    by blast
  then show "\<exists>evs. fst (andThen S k h) = h @ evs \<and>
        (\<forall>f args e. Call f args \<in> set evs \<longrightarrow> call this f args = Inl e \<longrightarrow>
           snd (andThen S k h) = Inl e \<and> emitted evs = [])"
  proof cases
    case pure
    then have "andThen S k h = k x h" by (simp add: andThen_def)
    with k [of x] show ?thesis unfolding stopsAtThrow_def by simp
  next
    case fails
    then have "andThen S k h = (h @ [Call f args], Inl e)" by (simp add: andThen_def)
    with fails(1) show ?thesis by auto
  next
    case returns
    then have eq: "andThen S k h = k x (h @ [Call f args])" by (simp add: andThen_def)
    from k [of x] obtain evs where evs: "fst (k x (h @ [Call f args])) = (h @ [Call f args]) @ evs"
      and P: "\<forall>f' args' e. Call f' args' \<in> set evs \<longrightarrow> call this f' args' = Inl e \<longrightarrow>
           snd (k x (h @ [Call f args])) = Inl e \<and> emitted evs = []"
      unfolding stopsAtThrow_def by blast
    have "fst (andThen S k h) = h @ (Call f args # evs)" using eq evs by simp
    moreover have "\<forall>f' args' e. Call f' args' \<in> set (Call f args # evs) \<longrightarrow>
        call this f' args' = Inl e \<longrightarrow>
        snd (andThen S k h) = Inl e \<and> emitted (Call f args # evs) = []"
      using P returns(1) eq by auto
    ultimately show ?thesis by blast
  qed
qed

lemma stopsAtThrow_emit:
  "stopsAtThrow this (andThen (emit this opts op content) (\<lambda>_. ret y))"
  unfolding stopsAtThrow_def
  by (auto simp: andThen_def emit_eq ret_def split: option.splits)

lemma stopsAtThrow_loader:
  assumes "validateOptions schema (getOptions this) = None"
  shows "\<exists>evs. fst (loader this content h) = h @ interpolation this content # evs \<and>
        (\<forall>f args e. Call f args \<in> set evs \<longrightarrow> call this f args = Inl e \<longrightarrow>
           snd (loader this content h) = Inl e \<and> emitted evs = [])"
proof -
  let ?m = "andThen (resolve_outputPath this (getOptions this) (urlOf this content) (contextOf this))
      (\<lambda>outputPath.
       andThen (resolve_publicPath this (getOptions this) (urlOf this content) (contextOf this) outputPath)
         (\<lambda>publicPath.
          andThen (postTransform this (getOptions this) publicPath)
            (\<lambda>publicPath.
             andThen (emit this (getOptions this) outputPath content)
               (\<lambda>_. ret (generate (getOptions this) publicPath)))))"
  have "stopsAtThrow this ?m"
    by (intro stopsAtThrow_andThen stopsAtThrow_emit callsOnly_resolve_outputPath
        callsOnly_resolve_publicPath callsOnly_postTransform assms)
  then obtain evs where "fst (?m (h @ [interpolation this content])) = (h @ [interpolation this content]) @ evs"
    and "\<forall>f args e. Call f args \<in> set evs \<longrightarrow> call this f args = Inl e \<longrightarrow>
           snd (?m (h @ [interpolation this content])) = Inl e \<and> emitted evs = []"
    unfolding stopsAtThrow_def by blast
  then show ?thesis
    unfolding loader_valid [OF assms] by auto
qed

subsection \<open>Where the error of a valid invocation comes from\<close>

lemma errorsFromCollaborators_andThen:
  assumes S: "callsOnly this S" and k: "\<And>x. errorsFromCollaborators this content (k x)"
  shows "errorsFromCollaborators this content (andThen S k)"
  unfolding errorsFromCollaborators_def
proof
  fix h
  from S have "(\<exists>x. S h = (h, Inr x))
        \<or> (\<exists>f args e. call this f args = Inl e \<and> S h = (h @ [Call f args], Inl e))
        \<or> (\<exists>f args v x. call this f args = Inr v \<and> S h = (h @ [Call f args], Inr x))"
    unfolding callsOnly_def by blast
  then consider
      (pure) x where "S h = (h, Inr x)"
    | (fails) f args e where "call this f args = Inl e" "S h = (h @ [Call f args], Inl e)"
    | (returns) f args v x where "call this f args = Inr v" "S h = (h @ [Call f args], Inr x)"
    by blast
  then show "\<exists>evs. fst (andThen S k h) = h @ evs \<and>
        (\<forall>e. snd (andThen S k h) = Inl e \<longrightarrow>
           (\<exists>f args. Call f args \<in> set evs \<and> call this f args = Inl e)
         \<or> (\<exists>p. EmitFile p content \<in> set evs \<and> emitFile this p content = Some e))"
  proof cases
    case pure
    then have "andThen S k h = k x h" by (simp add: andThen_def)
    with k [of x] show ?thesis unfolding errorsFromCollaborators_def by simp
  next
    case fails
    then have "andThen S k h = (h @ [Call f args], Inl e)" by (simp add: andThen_def)
    with fails(1) show ?thesis by auto
  next
    case returns
    then have eq: "andThen S k h = k x (h @ [Call f args])" by (simp add: andThen_def)
    from k [of x] obtain evs where evs: "fst (k x (h @ [Call f args])) = (h @ [Call f args]) @ evs"
      and P: "\<forall>e. snd (k x (h @ [Call f args])) = Inl e \<longrightarrow>
           (\<exists>f args. Call f args \<in> set evs \<and> call this f args = Inl e)
         \<or> (\<exists>p. EmitFile p content \<in> set evs \<and> emitFile this p content = Some e)"
      unfolding errorsFromCollaborators_def by blast
    have "fst (andThen S k h) = h @ (Call f args # evs)" using eq evs by simp
    moreover have "\<forall>e. snd (andThen S k h) = Inl e \<longrightarrow>
           (\<exists>f' args'. Call f' args' \<in> set (Call f args # evs) \<and> call this f' args' = Inl e)
         \<or> (\<exists>p. EmitFile p content \<in> set (Call f args # evs) \<and> emitFile this p content = Some e)"
      using P eq by (simp del: ex_simps) blast
    ultimately show ?thesis by blast
  qed
qed

lemma errorsFromCollaborators_emit:
  "errorsFromCollaborators this content (andThen (emit this opts op content) (\<lambda>_. ret y))"
  unfolding errorsFromCollaborators_def
  by (auto simp: andThen_def emit_eq ret_def split: option.splits)

lemma errorsFromCollaborators_loader:
  assumes "validateOptions schema (getOptions this) = None"
  shows "\<exists>evs. fst (loader this content h) = h @ interpolation this content # evs \<and>
        (\<forall>e. snd (loader this content h) = Inl e \<longrightarrow>
           (\<exists>f args. Call f args \<in> set evs \<and> call this f args = Inl e)
         \<or> (\<exists>p. EmitFile p content \<in> set evs \<and> emitFile this p content = Some e))"
proof -
  let ?m = "andThen (resolve_outputPath this (getOptions this) (urlOf this content) (contextOf this))
      (\<lambda>outputPath.
       andThen (resolve_publicPath this (getOptions this) (urlOf this content) (contextOf this) outputPath)
         (\<lambda>publicPath.
          andThen (postTransform this (getOptions this) publicPath)
            (\<lambda>publicPath.
             andThen (emit this (getOptions this) outputPath content)
               (\<lambda>_. ret (generate (getOptions this) publicPath)))))"
  have "errorsFromCollaborators this content ?m"
    by (intro errorsFromCollaborators_andThen errorsFromCollaborators_emit
        callsOnly_resolve_outputPath callsOnly_resolve_publicPath callsOnly_postTransform assms)
  then obtain evs where "fst (?m (h @ [interpolation this content])) = (h @ [interpolation this content]) @ evs"
    and "\<forall>e. snd (?m (h @ [interpolation this content])) = Inl e \<longrightarrow>
           (\<exists>f args. Call f args \<in> set evs \<and> call this f args = Inl e)
         \<or> (\<exists>p. EmitFile p content \<in> set evs \<and> emitFile this p content = Some e)"
    unfolding errorsFromCollaborators_def by blast
  then show ?thesis
    unfolding loader_valid [OF assms] by auto
qed

section \<open>Context resolution\<close>

text \<open>
  Claim C2, as amended. Line 29 is \<^verbatim>\<open>options.context || this.rootContext\<close>: for a
  configuration that passes validation, the context is \<^verbatim>\<open>options.context\<close> when that is a
  non-empty string, and \<^verbatim>\<open>this.rootContext\<close> otherwise, that is when the option is absent
  or is the empty string. This context is the one given to \<^verbatim>\<open>interpolateName\<close>, the first
  call of the invocation.
\<close>

theorem context_resolution:
  assumes valid: "validateOptions schema (getOptions this) = None"
  shows "contextOf this =
           (case getProp (getOptions this) ''context'' of
              JStr s \<Rightarrow> if s = [] then JStr (rootContext this) else JStr s
            | _ \<Rightarrow> JStr (rootContext this))
       \<and> (\<exists>evs. fst (loader this content h) =
             h @ InterpolateName (templateOf this) (contextOf this) content
                   (getProp (getOptions this) ''regExp'') # evs)"
proof -
  have "contextOf this =
           (case getProp (getOptions this) ''context'' of
              JStr s \<Rightarrow> if s = [] then JStr (rootContext this) else JStr s
            | _ \<Rightarrow> JStr (rootContext this))"
    using valid_context [OF valid] by (auto simp: contextOf_def js_or_def)
  moreover from stopsAtThrow_loader [OF valid, of content h]
  have "\<exists>evs. fst (loader this content h) = h @ interpolation this content # evs"
    by blast
  ultimately show ?thesis by (simp add: interpolation_def)
qed

theorem context_resolution_witness:
  "validateOptions schema (getOptions (example_this [(''context'', JStr ''/project/src'')])) = None
   \<and> contextOf (example_this [(''context'', JStr ''/project/src'')]) = JStr ''/project/src''
   \<and> contextOf (example_this []) = JStr ''/project''
   \<and> (\<exists>evs. fst (loader (example_this [(''context'', JStr ''/project/src'')]) [0x89, 0x50] []) =
         InterpolateName (JStr ''[contenthash].[ext]'') (JStr ''/project/src'') [0x89, 0x50]
           JUndefined # evs)"
proof -
  let ?T = "example_this [(''context'', JStr ''/project/src'')]"
  have valid: "validateOptions schema (getOptions ?T) = None"
    by (simp add: evaluation)
  have valid': "validateOptions schema (getOptions (example_this [])) = None"
    by (simp add: evaluation)
  from context_resolution [OF valid, where content = "[0x89, 0x50]" and h = "[]"]
    context_resolution [OF valid', where content = "[0x89, 0x50]" and h = "[]"]
  show ?thesis
    using valid by (auto simp: evaluation)
qed

text \<open>
  The claim as stated fails for the empty string: \<^verbatim>\<open>context: ""\<close> is present, yet the
  context given to \<^verbatim>\<open>interpolateName\<close> is the root context.
\<close>

theorem context_empty_string_counterexample:
  "validateOptions schema (getOptions (example_this [(''context'', JStr '''')])) = None
   \<and> getProp (getOptions (example_this [(''context'', JStr '''')])) ''context'' = JStr ''''
   \<and> rootContext (example_this [(''context'', JStr '''')]) = ''/project''
   \<and> contextOf (example_this [(''context'', JStr '''')]) = JStr ''/project''
   \<and> loader (example_this [(''context'', JStr '''')]) [0x89, 0x50] [] =
       ([InterpolateName (JStr ''[contenthash].[ext]'') (JStr ''/project'') [0x89, 0x50] JUndefined,
         EmitFile ''abc123.png'' [0x89, 0x50]],
        Inr (''export default __webpack_public_path__ + '' @ [CHR 0x22] @ ''abc123.png''
               @ [CHR 0x22] @ '';''))"
  by (simp add: evaluation)

section \<open>Output path\<close>

text \<open>
  Claim C9, as amended. When \<^verbatim>\<open>options.outputPath\<close> is a non-empty string, the output path
  is \<^verbatim>\<open>path.posix.join(options.outputPath, url)\<close>, whatever the host; for a valid
  configuration whose public path resolves, this joined path is the path of the file
  given to the host when emission is enabled.
\<close>

theorem outputPath_string_join:
  fixes this :: loader_context and content :: buffer and h :: "event list"
  defines "opts \<equiv> getOptions this"
    and "url \<equiv> urlOf this content"
    and "context \<equiv> contextOf this"
  assumes str: "getProp opts ''outputPath'' = JStr s"
    and nonempty: "s \<noteq> []"
  shows "resolve_outputPath this opts url context h_start = (h_start, Inr (posix_join [s, url]))
       \<and> (validateOptions schema opts = None \<longrightarrow>
          resolve_publicPath this opts url context (posix_join [s, url])
            (h @ [interpolation this content]) = (h_pub, Inr publicPath) \<longrightarrow>
          postTransform this opts publicPath h_pub = (h_post, Inr publicPath') \<longrightarrow>
          fst (loader this content h) =
            h_post @ (if emitEnabled opts then [EmitFile (posix_join [s, url]) content] else []))"
proof -
  have stage: "resolve_outputPath this opts url context h_start = (h_start, Inr (posix_join [s, url]))"
    for h_start
    using str nonempty by (simp add: resolve_outputPath_def ret_def)
  have "fst (loader this content h) =
            h_post @ (if emitEnabled opts then [EmitFile (posix_join [s, url]) content] else [])"
    if "validateOptions schema opts = None"
      and "resolve_publicPath this opts url context (posix_join [s, url])
            (h @ [interpolation this content]) = (h_pub, Inr publicPath)"
      and "postTransform this opts publicPath h_pub = (h_post, Inr publicPath')"
    using loader_steps [of this content h "h @ [interpolation this content]"
        "posix_join [s, url]" h_pub publicPath h_post publicPath'] that
      stage [of "h @ [interpolation this content]"]
    unfolding opts_def url_def context_def by simp
  with stage show ?thesis by blast
qed

theorem outputPath_string_join_witness:
  "getProp (getOptions (example_this [(''outputPath'', JStr ''dist'')])) ''outputPath'' = JStr ''dist''
   \<and> ''dist'' \<noteq> []
   \<and> urlOf (example_this [(''outputPath'', JStr ''dist'')]) [0x89, 0x50] = ''abc123.png''
   \<and> resolve_outputPath (example_this [(''outputPath'', JStr ''dist'')])
        [(''outputPath'', JStr ''dist'')] ''abc123.png'' (JStr ''/project'') []
       = ([], Inr ''dist/abc123.png'')
   \<and> fst (loader (example_this [(''outputPath'', JStr ''dist'')]) [0x89, 0x50] []) =
       [InterpolateName (JStr ''[contenthash].[ext]'') (JStr ''/project'') [0x89, 0x50] JUndefined,
        EmitFile ''dist/abc123.png'' [0x89, 0x50]]"
proof -
  let ?T = "example_this [(''outputPath'', JStr ''dist'')]"
  have str: "getProp (getOptions ?T) ''outputPath'' = JStr ''dist''"
    by (simp add: evaluation)
  have nonempty: "''dist'' \<noteq> []"
    by simp
  from outputPath_string_join [OF str nonempty, where content = "[0x89, 0x50]" and h = "[]"
      and h_start = "[]"
      and h_pub = "[InterpolateName (JStr ''[contenthash].[ext]'') (JStr ''/project'')
                     [0x89, 0x50] JUndefined]"
      and publicPath = "''__webpack_public_path__ + '' @ [CHR 0x22] @ ''dist/abc123.png''
                          @ [CHR 0x22]"
      and h_post = "[InterpolateName (JStr ''[contenthash].[ext]'') (JStr ''/project'')
                      [0x89, 0x50] JUndefined]"
      and publicPath' = "''__webpack_public_path__ + '' @ [CHR 0x22] @ ''dist/abc123.png''
                           @ [CHR 0x22]"]
  show ?thesis
    using str by (simp add: evaluation)
qed

text \<open>
  The claim as stated fails for the empty string, which is falsy: the output path is then
  the name itself, and the name need not be what \<^verbatim>\<open>path.posix.join\<close> makes of it.
\<close>

theorem outputPath_empty_string_counterexample:
  "validateOptions schema
     (getOptions (example_this [(''outputPath'', JStr ''''), (''name'', JStr ''./abc123.png'')])) = None
   \<and> getProp (getOptions (example_this [(''outputPath'', JStr ''''), (''name'', JStr ''./abc123.png'')]))
       ''outputPath'' = JStr ''''
   \<and> urlOf (example_this [(''outputPath'', JStr ''''), (''name'', JStr ''./abc123.png'')]) [0x89, 0x50]
       = ''./abc123.png''
   \<and> fst (loader (example_this [(''outputPath'', JStr ''''), (''name'', JStr ''./abc123.png'')])
        [0x89, 0x50] []) =
       [InterpolateName (JStr ''./abc123.png'') (JStr ''/project'') [0x89, 0x50] JUndefined,
        EmitFile ''./abc123.png'' [0x89, 0x50]]
   \<and> posix_join ['''', ''./abc123.png''] = ''abc123.png''"
  by (simp add: evaluation)

section \<open>Public path\<close>

text \<open>
  Claim C4. When \<^verbatim>\<open>publicPath\<close> and \<^verbatim>\<open>postTransformPublicPath\<close> are absent from a valid
  configuration, the output path has been resolved and the emission step returns, the
  loader returns the export keyword followed by the concatenation
  \<^verbatim>\<open>__webpack_public_path__ + \<close> and the output path as a JSON string literal; with
  \<^verbatim>\<open>esModule\<close> absent and the output path \<^verbatim>\<open>abc123.png\<close> the line is exactly
  \<^verbatim>\<open>export default __webpack_public_path__ + "abc123.png";\<close>.
\<close>

theorem default_publicPath:
  fixes this :: loader_context and content :: buffer and h :: "event list"
  defines "opts \<equiv> getOptions this"
  assumes valid: "validateOptions schema opts = None"
    and no_publicPath: "getProp opts ''publicPath'' = JUndefined"
    and no_postTransform: "getProp opts ''postTransformPublicPath'' = JUndefined"
    and out: "resolve_outputPath this opts (urlOf this content) (contextOf this)
                (h @ [interpolation this content]) = (h_out, Inr outputPath)"
    and em: "emit this opts outputPath content h_out = (h_end, Inr ())"
  shows "loader this content h =
           (h_end,
            Inr ((if getProp opts ''esModule'' = JUndefined \<or> truthy (getProp opts ''esModule'')
                  then ''export default'' else ''module.exports ='')
                 @ '' __webpack_public_path__ + '' @ JSON_stringify outputPath @ '';''))
       \<and> (getProp opts ''esModule'' = JUndefined \<longrightarrow> outputPath = ''abc123.png'' \<longrightarrow>
            snd (loader this content h) =
              Inr (''export default __webpack_public_path__ + '' @ [CHR 0x22] @ ''abc123.png''
                     @ [CHR 0x22] @ '';''))"
proof -
  have pub: "resolve_publicPath this opts (urlOf this content) (contextOf this) outputPath h_out
               = (h_out, Inr (''__webpack_public_path__ + '' @ JSON_stringify outputPath))"
    using no_publicPath by (simp add: resolve_publicPath_def ret_def)
  have post: "postTransform this opts (''__webpack_public_path__ + '' @ JSON_stringify outputPath)
                h_out = (h_out, Inr (''__webpack_public_path__ + '' @ JSON_stringify outputPath))"
    using no_postTransform by (simp add: postTransform_def ret_def)
  have run: "loader this content h =
      (h_end, Inr (generate opts (''__webpack_public_path__ + '' @ JSON_stringify outputPath)))"
    using loader_run [of this content h h_out outputPath h_out _ h_out _ h_end]
      valid out pub post em
    unfolding opts_def by simp
  have kw: "generate opts p =
      (if getProp opts ''esModule'' = JUndefined \<or> truthy (getProp opts ''esModule'')
       then ''export default'' else ''module.exports ='') @ '' '' @ p @ '';''" for p
    by (cases "getProp opts ''esModule''") (simp_all add: generate_def)
  have q: "JSON_stringify ''abc123.png'' = [CHR 0x22] @ ''abc123.png'' @ [CHR 0x22]"
    by (simp add: JSON_stringify_def quoteChar_def)
  from run kw q show ?thesis by simp
qed

theorem default_publicPath_witness:
  "validateOptions schema (getOptions (example_this [])) = None
   \<and> getProp (getOptions (example_this [])) ''publicPath'' = JUndefined
   \<and> getProp (getOptions (example_this [])) ''postTransformPublicPath'' = JUndefined
   \<and> getProp (getOptions (example_this [])) ''esModule'' = JUndefined
   \<and> loader (example_this []) [0x89, 0x50] [] =
       ([InterpolateName (JStr ''[contenthash].[ext]'') (JStr ''/project'') [0x89, 0x50] JUndefined,
         EmitFile ''abc123.png'' [0x89, 0x50]],
        Inr (''export default __webpack_public_path__ + '' @ [CHR 0x22] @ ''abc123.png''
               @ [CHR 0x22] @ '';''))"
proof -
  let ?T = "example_this []"
  let ?I = "InterpolateName (JStr ''[contenthash].[ext]'') (JStr ''/project'') [0x89, 0x50]
              JUndefined"
  have valid: "validateOptions schema (getOptions ?T) = None"
    by (simp add: evaluation)
  have no_publicPath: "getProp (getOptions ?T) ''publicPath'' = JUndefined"
    by (simp add: evaluation)
  have no_postTransform: "getProp (getOptions ?T) ''postTransformPublicPath'' = JUndefined"
    by (simp add: evaluation)
  have out: "resolve_outputPath ?T (getOptions ?T) (urlOf ?T [0x89, 0x50]) (contextOf ?T)
               ([] @ [interpolation ?T [0x89, 0x50]]) = ([?I], Inr ''abc123.png'')"
    by (simp add: evaluation)
  have em: "emit ?T (getOptions ?T) ''abc123.png'' [0x89, 0x50] [?I] =
              ([?I, EmitFile ''abc123.png'' [0x89, 0x50]], Inr ())"
    by (simp add: evaluation)
  from default_publicPath [OF valid no_publicPath no_postTransform out em]
  show ?thesis
    using valid no_publicPath no_postTransform by (simp add: evaluation)
qed

text \<open>
  Claim C1, as amended. When \<^verbatim>\<open>options.publicPath\<close> is a function that returns \<open>v\<close> for
  \<^verbatim>\<open>(url, this.resourcePath, context)\<close>, the public-path expression is
  \<^verbatim>\<open>JSON.stringify(v)\<close>: the returned value quoted as a string literal (line 73 applies to
  both branches). Without a post-transform, that literal is what the returned source
  embeds.
\<close>

theorem publicPath_function_quoted:
  fixes this :: loader_context and content :: buffer and h :: "event list"
  defines "opts \<equiv> getOptions this"
    and "url \<equiv> urlOf this content"
    and "context \<equiv> contextOf this"
  assumes fn: "getProp opts ''publicPath'' = JFun f"
    and returns: "call this f [JStr url, JStr (resourcePath this), context] = Inr v"
  shows "resolve_publicPath this opts url context outputPath h_out =
           (h_out @ [Call f [JStr url, JStr (resourcePath this), context]],
            Inr (JSON_stringify v))
       \<and> (validateOptions schema opts = None \<longrightarrow>
          getProp opts ''postTransformPublicPath'' = JUndefined \<longrightarrow>
          resolve_outputPath this opts url context (h @ [interpolation this content]) =
            (h_out, Inr outputPath) \<longrightarrow>
          emit this opts outputPath content
            (h_out @ [Call f [JStr url, JStr (resourcePath this), context]]) = (h_end, Inr ()) \<longrightarrow>
          loader this content h = (h_end, Inr (generate opts (JSON_stringify v))))"
proof -
  have stage: "resolve_publicPath this opts url context outputPath h_out =
           (h_out @ [Call f [JStr url, JStr (resourcePath this), context]],
            Inr (JSON_stringify v))" for h_out outputPath
    using fn returns
    by (simp add: resolve_publicPath_def andThen_def do_call_def ret_def)
  have "loader this content h = (h_end, Inr (generate opts (JSON_stringify v)))"
    if valid: "validateOptions schema opts = None"
      and post: "getProp opts ''postTransformPublicPath'' = JUndefined"
      and out: "resolve_outputPath this opts url context (h @ [interpolation this content]) =
            (h_out, Inr outputPath)"
      and em: "emit this opts outputPath content
            (h_out @ [Call f [JStr url, JStr (resourcePath this), context]]) = (h_end, Inr ())"
  proof -
    have "postTransform this opts (JSON_stringify v)
            (h_out @ [Call f [JStr url, JStr (resourcePath this), context]]) =
            (h_out @ [Call f [JStr url, JStr (resourcePath this), context]],
             Inr (JSON_stringify v))"
      using post by (simp add: postTransform_def ret_def)
    then show ?thesis
      using loader_run [of this content h h_out outputPath _ "JSON_stringify v" _
          "JSON_stringify v" h_end]
        valid out em stage [of outputPath h_out]
      unfolding opts_def url_def context_def by simp
  qed
  with stage show ?thesis by blast
qed

theorem publicPath_function_quoted_witness:
  "getProp (getOptions (example_this [(''publicPath'', JFun 0)])) ''publicPath'' = JFun 0
   \<and> call (example_this [(''publicPath'', JFun 0)]) 0
       [JStr ''abc123.png'', JStr ''/project/src/logo.png'', JStr ''/project'']
       = Inr ''assets/abc123.png''
   \<and> loader (example_this [(''publicPath'', JFun 0)]) [0x89, 0x50] [] =
       ([InterpolateName (JStr ''[contenthash].[ext]'') (JStr ''/project'') [0x89, 0x50] JUndefined,
         Call 0 [JStr ''abc123.png'', JStr ''/project/src/logo.png'', JStr ''/project''],
         EmitFile ''abc123.png'' [0x89, 0x50]],
        Inr (''export default '' @ [CHR 0x22] @ ''assets/abc123.png'' @ [CHR 0x22] @ '';''))"
proof -
  let ?T = "example_this [(''publicPath'', JFun 0)]"
  have fn: "getProp (getOptions ?T) ''publicPath'' = JFun 0"
    by (simp add: evaluation)
  have returns: "call ?T 0 [JStr (urlOf ?T [0x89, 0x50]), JStr (resourcePath ?T), contextOf ?T]
                   = Inr ''assets/abc123.png''"
    by (simp add: evaluation)
  from publicPath_function_quoted [OF fn returns, where h = "[]"
      and outputPath = "''abc123.png''"
      and h_out = "[InterpolateName (JStr ''[contenthash].[ext]'') (JStr ''/project'')
                     [0x89, 0x50] JUndefined]"
      and h_end = "[InterpolateName (JStr ''[contenthash].[ext]'') (JStr ''/project'')
                     [0x89, 0x50] JUndefined,
                    Call 0 [JStr ''abc123.png'', JStr ''/project/src/logo.png'', JStr ''/project''],
                    EmitFile ''abc123.png'' [0x89, 0x50]]"]
  show ?thesis
    using fn by (simp add: evaluation)
qed

text \<open>
  The claim as stated fails: the value returned by the function is not embedded as it
  is. The function returns \<^verbatim>\<open>assets/abc123.png\<close>, and the source embeds the quoted
  \<^verbatim>\<open>"assets/abc123.png"\<close>.
\<close>

theorem publicPath_function_verbatim_counterexample:
  "getProp (getOptions (example_this [(''publicPath'', JFun 0)])) ''publicPath'' = JFun 0
   \<and> call (example_this [(''publicPath'', JFun 0)]) 0
       [JStr (urlOf (example_this [(''publicPath'', JFun 0)]) [0x89, 0x50]),
        JStr (resourcePath (example_this [(''publicPath'', JFun 0)])),
        contextOf (example_this [(''publicPath'', JFun 0)])]
       = Inr ''assets/abc123.png''
   \<and> snd (loader (example_this [(''publicPath'', JFun 0)]) [0x89, 0x50] []) =
        Inr (''export default '' @ [CHR 0x22] @ ''assets/abc123.png'' @ [CHR 0x22] @ '';'')
   \<and> snd (loader (example_this [(''publicPath'', JFun 0)]) [0x89, 0x50] []) \<noteq>
        Inr (''export default '' @ ''assets/abc123.png'' @ '';'')"
  by (simp add: evaluation)

text \<open>
  Claim C3, as amended. When \<^verbatim>\<open>options.publicPath\<close> is a non-empty string \<open>s\<close>, the
  public-path expression is the JSON string literal of \<open>s\<close>, with \<^verbatim>\<open>/\<close> appended unless
  \<open>s\<close> ends with it, followed by the name \<open>url\<close>; it does not depend on the output path.
  Without a post-transform, that literal is what the returned source embeds.
\<close>

theorem publicPath_string:
  fixes this :: loader_context and content :: buffer and h :: "event list"
  defines "opts \<equiv> getOptions this"
    and "url \<equiv> urlOf this content"
    and "context \<equiv> contextOf this"
  assumes str: "getProp opts ''publicPath'' = JStr s"
    and nonempty: "s \<noteq> []"
  shows "resolve_publicPath this opts url context outputPath h_out =
           (h_out, Inr (JSON_stringify ((if endsWith s ''/'' then s else s @ ''/'') @ url)))
       \<and> endsWith (if endsWith s ''/'' then s else s @ ''/'') ''/''
       \<and> (validateOptions schema opts = None \<longrightarrow>
          getProp opts ''postTransformPublicPath'' = JUndefined \<longrightarrow>
          resolve_outputPath this opts url context (h @ [interpolation this content]) =
            (h_out, Inr outputPath) \<longrightarrow>
          emit this opts outputPath content h_out = (h_end, Inr ()) \<longrightarrow>
          loader this content h =
            (h_end,
             Inr (generate opts
                    (JSON_stringify ((if endsWith s ''/'' then s else s @ ''/'') @ url)))))"
proof -
  let ?p = "JSON_stringify ((if endsWith s ''/'' then s else s @ ''/'') @ url)"
  have stage: "resolve_publicPath this opts url context outputPath h_out = (h_out, Inr ?p)"
    for h_out outputPath
    using str nonempty by (simp add: resolve_publicPath_def andThen_def ret_def)
  have slash: "endsWith (if endsWith s ''/'' then s else s @ ''/'') ''/''"
    by (simp add: endsWith_def)
  have "loader this content h = (h_end, Inr (generate opts ?p))"
    if valid: "validateOptions schema opts = None"
      and post: "getProp opts ''postTransformPublicPath'' = JUndefined"
      and out: "resolve_outputPath this opts url context (h @ [interpolation this content]) =
            (h_out, Inr outputPath)"
      and em: "emit this opts outputPath content h_out = (h_end, Inr ())"
  proof -
    have "postTransform this opts ?p h_out = (h_out, Inr ?p)"
      using post by (simp add: postTransform_def ret_def)
    then show ?thesis
      using loader_run [of this content h h_out outputPath h_out ?p h_out ?p h_end]
        valid out em stage [of outputPath h_out]
      unfolding opts_def url_def context_def by simp
  qed
  with stage slash show ?thesis by blast
qed

theorem publicPath_string_witness:
  "getProp (getOptions (example_this
       [(''publicPath'', JStr ''https://cdn.example.com''), (''outputPath'', JStr ''dist'')]))
     ''publicPath'' = JStr ''https://cdn.example.com''
   \<and> ''https://cdn.example.com'' \<noteq> []
   \<and> loader (example_this
       [(''publicPath'', JStr ''https://cdn.example.com''), (''outputPath'', JStr ''dist'')])
       [0x89, 0x50] [] =
       ([InterpolateName (JStr ''[contenthash].[ext]'') (JStr ''/project'') [0x89, 0x50] JUndefined,
         EmitFile ''dist/abc123.png'' [0x89, 0x50]],
        Inr (''export default '' @ [CHR 0x22] @ ''https://cdn.example.com/abc123.png''
               @ [CHR 0x22] @ '';''))"
proof -
  let ?T = "example_this
       [(''publicPath'', JStr ''https://cdn.example.com''), (''outputPath'', JStr ''dist'')]"
  have str: "getProp (getOptions ?T) ''publicPath'' = JStr ''https://cdn.example.com''"
    by (simp add: evaluation)
  have nonempty: "''https://cdn.example.com'' \<noteq> []"
    by simp
  from publicPath_string [OF str nonempty, where content = "[0x89, 0x50]" and h = "[]"
      and outputPath = "''dist/abc123.png''"
      and h_out = "[InterpolateName (JStr ''[contenthash].[ext]'') (JStr ''/project'')
                     [0x89, 0x50] JUndefined]"
      and h_end = "[InterpolateName (JStr ''[contenthash].[ext]'') (JStr ''/project'')
                     [0x89, 0x50] JUndefined,
                    EmitFile ''dist/abc123.png'' [0x89, 0x50]]"]
  show ?thesis
    using str by (simp add: evaluation)
qed

text \<open>
  The claim as stated fails for the empty string, which is falsy: the default expression
  is embedded, not the literal \<^verbatim>\<open>"/abc123.png"\<close>.
\<close>

theorem publicPath_empty_string_counterexample:
  "validateOptions schema (getOptions (example_this [(''publicPath'', JStr '''')])) = None
   \<and> getProp (getOptions (example_this [(''publicPath'', JStr '''')])) ''publicPath'' = JStr ''''
   \<and> urlOf (example_this [(''publicPath'', JStr '''')]) [0x89, 0x50] = ''abc123.png''
   \<and> snd (loader (example_this [(''publicPath'', JStr '''')]) [0x89, 0x50] []) =
        Inr (''export default __webpack_public_path__ + '' @ [CHR 0x22] @ ''abc123.png''
               @ [CHR 0x22] @ '';'')
   \<and> snd (loader (example_this [(''publicPath'', JStr '''')]) [0x89, 0x50] []) \<noteq>
        Inr (''export default '' @ [CHR 0x22] @ ''/abc123.png'' @ [CHR 0x22] @ '';'')"
  by (simp add: evaluation)

text \<open>
  Claim C7. When \<^verbatim>\<open>options.postTransformPublicPath\<close> is a function, it is called after the
  public path has been resolved, with the expression that the resolution produced
  (whichever branch produced it), and what it returns is the expression embedded in the
  generated source.
\<close>

theorem postTransform_last:
  fixes this :: loader_context and content :: buffer and h :: "event list"
  defines "opts \<equiv> getOptions this"
    and "url \<equiv> urlOf this content"
    and "context \<equiv> contextOf this"
  assumes valid: "validateOptions schema opts = None"
    and fn: "getProp opts ''postTransformPublicPath'' = JFun g"
    and out: "resolve_outputPath this opts url context (h @ [interpolation this content]) =
                (h_out, Inr outputPath)"
    and pub: "resolve_publicPath this opts url context outputPath h_out =
                (h_pub, Inr publicPath)"
    and returns: "call this g [JStr publicPath] = Inr q"
    and em: "emit this opts outputPath content (h_pub @ [Call g [JStr publicPath]]) =
                (h_end, Inr ())"
  shows "postTransform this opts publicPath h_pub = (h_pub @ [Call g [JStr publicPath]], Inr q)
       \<and> loader this content h = (h_end, Inr (generate opts q))
       \<and> (\<exists>evs. h_end = h_pub @ Call g [JStr publicPath] # evs)"
proof -
  have post: "postTransform this opts publicPath h_pub =
                (h_pub @ [Call g [JStr publicPath]], Inr q)"
    using fn returns by (simp add: postTransform_def do_call_def)
  have run: "loader this content h = (h_end, Inr (generate opts q))"
    using loader_run [of this content h h_out outputPath h_pub publicPath
        "h_pub @ [Call g [JStr publicPath]]" q h_end]
      valid out pub post em
    unfolding opts_def url_def context_def by simp
  have "\<exists>evs. h_end = h_pub @ Call g [JStr publicPath] # evs"
    using em by (auto simp: emit_eq)
  with post run show ?thesis by blast
qed

theorem postTransform_last_witness:
  "validateOptions schema (getOptions (example_this
       [(''publicPath'', JStr ''https://cdn.example.com''), (''postTransformPublicPath'', JFun 1)]))
     = None
   \<and> call (example_this
       [(''publicPath'', JStr ''https://cdn.example.com''), (''postTransformPublicPath'', JFun 1)])
       1 [JStr ([CHR 0x22] @ ''https://cdn.example.com/abc123.png'' @ [CHR 0x22])]
     = Inr ([CHR 0x22] @ ''https://cdn.example.com/abc123.png'' @ [CHR 0x22] @ '' + VERSION'')
   \<and> loader (example_this
       [(''publicPath'', JStr ''https://cdn.example.com''), (''postTransformPublicPath'', JFun 1)])
       [0x89, 0x50] [] =
       ([InterpolateName (JStr ''[contenthash].[ext]'') (JStr ''/project'') [0x89, 0x50] JUndefined,
         Call 1 [JStr ([CHR 0x22] @ ''https://cdn.example.com/abc123.png'' @ [CHR 0x22])],
         EmitFile ''abc123.png'' [0x89, 0x50]],
        Inr (''export default '' @ [CHR 0x22] @ ''https://cdn.example.com/abc123.png''
               @ [CHR 0x22] @ '' + VERSION;''))
   \<and> snd (loader (example_this [(''postTransformPublicPath'', JFun 1)]) [0x89, 0x50] []) =
        Inr (''export default __webpack_public_path__ + '' @ [CHR 0x22] @ ''abc123.png''
               @ [CHR 0x22] @ '' + VERSION;'')"
proof -
  let ?T = "example_this
       [(''publicPath'', JStr ''https://cdn.example.com''), (''postTransformPublicPath'', JFun 1)]"
  let ?D = "example_this [(''postTransformPublicPath'', JFun 1)]"
  let ?I = "InterpolateName (JStr ''[contenthash].[ext]'') (JStr ''/project'') [0x89, 0x50]
              JUndefined"
  let ?p = "[CHR 0x22] @ ''https://cdn.example.com/abc123.png'' @ [CHR 0x22]"
  let ?d = "''__webpack_public_path__ + '' @ [CHR 0x22] @ ''abc123.png'' @ [CHR 0x22]"
  have valid: "validateOptions schema (getOptions ?T) = None"
    and fn: "getProp (getOptions ?T) ''postTransformPublicPath'' = JFun 1"
    and out: "resolve_outputPath ?T (getOptions ?T) (urlOf ?T [0x89, 0x50]) (contextOf ?T)
               ([] @ [interpolation ?T [0x89, 0x50]]) = ([?I], Inr ''abc123.png'')"
    and pub: "resolve_publicPath ?T (getOptions ?T) (urlOf ?T [0x89, 0x50]) (contextOf ?T)
               ''abc123.png'' [?I] = ([?I], Inr ?p)"
    and returns: "call ?T 1 [JStr ?p] = Inr (?p @ '' + VERSION'')"
    and em: "emit ?T (getOptions ?T) ''abc123.png'' [0x89, 0x50] ([?I] @ [Call 1 [JStr ?p]]) =
              ([?I, Call 1 [JStr ?p], EmitFile ''abc123.png'' [0x89, 0x50]], Inr ())"
    by (simp_all add: evaluation)
  have valid': "validateOptions schema (getOptions ?D) = None"
    and fn': "getProp (getOptions ?D) ''postTransformPublicPath'' = JFun 1"
    and out': "resolve_outputPath ?D (getOptions ?D) (urlOf ?D [0x89, 0x50]) (contextOf ?D)
               ([] @ [interpolation ?D [0x89, 0x50]]) = ([?I], Inr ''abc123.png'')"
    and pub': "resolve_publicPath ?D (getOptions ?D) (urlOf ?D [0x89, 0x50]) (contextOf ?D)
               ''abc123.png'' [?I] = ([?I], Inr ?d)"
    and returns': "call ?D 1 [JStr ?d] = Inr (?d @ '' + VERSION'')"
    and em': "emit ?D (getOptions ?D) ''abc123.png'' [0x89, 0x50] ([?I] @ [Call 1 [JStr ?d]]) =
              ([?I, Call 1 [JStr ?d], EmitFile ''abc123.png'' [0x89, 0x50]], Inr ())"
    by (simp_all add: evaluation)
  from postTransform_last [OF valid fn out pub returns em]
    postTransform_last [OF valid' fn' out' pub' returns' em']
  show ?thesis
    using valid by (simp add: evaluation)
qed

section \<open>Emission\<close>

text \<open>
  Claim C5, as amended. In an invocation whose configuration is valid and whose output
  path, public path and post-transform have been computed (no callback has thrown), the
  calls made are those of these steps followed by exactly one \<open>emitFile(outputPath,
  content)\<close> when \<^verbatim>\<open>options.emitFile\<close> is \<^verbatim>\<open>undefined\<close> or truthy, and by nothing otherwise;
  the steps before emit nothing. So the invocation emits exactly that one file if and
  only if \<^verbatim>\<open>options.emitFile\<close> is \<^verbatim>\<open>undefined\<close> or truthy, and with \<^verbatim>\<open>emitFile: false\<close>
  nothing is emitted and the source is still returned.
\<close>

theorem emission_decision:
  fixes this :: loader_context and content :: buffer and h :: "event list"
  defines "opts \<equiv> getOptions this"
    and "url \<equiv> urlOf this content"
    and "context \<equiv> contextOf this"
  assumes valid: "validateOptions schema opts = None"
    and out: "resolve_outputPath this opts url context (h @ [interpolation this content]) =
                (h_out, Inr outputPath)"
    and pub: "resolve_publicPath this opts url context outputPath h_out =
                (h_pub, Inr publicPath)"
    and post: "postTransform this opts publicPath h_pub = (h_post, Inr publicPath')"
  shows "fst (loader this content h) =
           h_post @
           (if typeof (getProp opts ''emitFile'') = ''undefined'' \<or> truthy (getProp opts ''emitFile'')
            then [EmitFile outputPath content] else [])
       \<and> emitted h_post = emitted h
       \<and> ((emitted (fst (loader this content h)) = emitted h @ [(outputPath, content)]) =
            (typeof (getProp opts ''emitFile'') = ''undefined'' \<or> truthy (getProp opts ''emitFile'')))
       \<and> (getProp opts ''emitFile'' = JBool False \<longrightarrow>
            emitted (fst (loader this content h)) = emitted h
            \<and> snd (loader this content h) = Inr (generate opts publicPath'))"
proof -
  have steps: "loader this content h =
           (h_post @ (if emitEnabled opts then [EmitFile outputPath content] else []),
            if emitEnabled opts
            then (case emitFile this outputPath content of
                    None \<Rightarrow> Inr (generate opts publicPath')
                  | Some e \<Rightarrow> Inl e)
            else Inr (generate opts publicPath'))"
    using loader_steps [of this content h h_out outputPath h_pub publicPath h_post publicPath']
      valid out pub post
    unfolding opts_def url_def context_def by simp
  have "callsOnly this (resolve_outputPath this opts url context)"
    using valid by (rule callsOnly_resolve_outputPath)
  with out have 1: "emitted h_out = emitted h"
    unfolding callsOnly_def
    by (auto simp: emitted_append interpolation_def dest!: spec [of _ "h @ [interpolation this content]"])
  have "callsOnly this (resolve_publicPath this opts url context outputPath)"
    using valid by (rule callsOnly_resolve_publicPath)
  with pub have 2: "emitted h_pub = emitted h_out"
    unfolding callsOnly_def by (auto simp: emitted_append dest!: spec [of _ h_out])
  have "callsOnly this (postTransform this opts publicPath)"
    using valid by (rule callsOnly_postTransform)
  with post have 3: "emitted h_post = emitted h_pub"
    unfolding callsOnly_def by (auto simp: emitted_append dest!: spec [of _ h_pub])
  from 1 2 3 have before: "emitted h_post = emitted h" by simp
  have off: "\<not> emitEnabled opts" if "getProp opts ''emitFile'' = JBool False"
    using that by (simp add: emitEnabled_def)
  show ?thesis
    using steps before off
    by (auto simp: emitEnabled_def emitted_append)
qed

theorem emission_decision_witness:
  "validateOptions schema (getOptions (example_this [(''emitFile'', JBool False)])) = None
   \<and> getProp (getOptions (example_this [(''emitFile'', JBool False)])) ''emitFile'' = JBool False
   \<and> loader (example_this [(''emitFile'', JBool False)]) [0x89, 0x50] [] =
       ([InterpolateName (JStr ''[contenthash].[ext]'') (JStr ''/project'') [0x89, 0x50] JUndefined],
        Inr (''export default __webpack_public_path__ + '' @ [CHR 0x22] @ ''abc123.png''
               @ [CHR 0x22] @ '';''))
   \<and> emitted (fst (loader (example_this [(''emitFile'', JBool False)]) [0x89, 0x50] [])) = []
   \<and> emitted (fst (loader (example_this [(''emitFile'', JBool True)]) [0x89, 0x50] [])) =
       [(''abc123.png'', [0x89, 0x50])]
   \<and> emitted (fst (loader (example_this []) [0x89, 0x50] [])) = [(''abc123.png'', [0x89, 0x50])]"
proof -
  let ?T = "example_this [(''emitFile'', JBool False)]"
  let ?I = "InterpolateName (JStr ''[contenthash].[ext]'') (JStr ''/project'') [0x89, 0x50]
              JUndefined"
  let ?d = "''__webpack_public_path__ + '' @ [CHR 0x22] @ ''abc123.png'' @ [CHR 0x22]"
  have valid: "validateOptions schema (getOptions ?T) = None"
    and out: "resolve_outputPath ?T (getOptions ?T) (urlOf ?T [0x89, 0x50]) (contextOf ?T)
               ([] @ [interpolation ?T [0x89, 0x50]]) = ([?I], Inr ''abc123.png'')"
    and pub: "resolve_publicPath ?T (getOptions ?T) (urlOf ?T [0x89, 0x50]) (contextOf ?T)
               ''abc123.png'' [?I] = ([?I], Inr ?d)"
    and post: "postTransform ?T (getOptions ?T) ?d [?I] = ([?I], Inr ?d)"
    by (simp_all add: evaluation)
  let ?E = "example_this [(''emitFile'', JBool True)]"
  have valid': "validateOptions schema (getOptions ?E) = None"
    and out': "resolve_outputPath ?E (getOptions ?E) (urlOf ?E [0x89, 0x50]) (contextOf ?E)
               ([] @ [interpolation ?E [0x89, 0x50]]) = ([?I], Inr ''abc123.png'')"
    and pub': "resolve_publicPath ?E (getOptions ?E) (urlOf ?E [0x89, 0x50]) (contextOf ?E)
               ''abc123.png'' [?I] = ([?I], Inr ?d)"
    and post': "postTransform ?E (getOptions ?E) ?d [?I] = ([?I], Inr ?d)"
    by (simp_all add: evaluation)
  from emission_decision [OF valid out pub post] emission_decision [OF valid' out' pub' post']
  show ?thesis
    using valid by (simp add: evaluation)
qed

text \<open>
  The claim as stated, for every invocation, fails when a callback throws: the
  configuration is valid, \<^verbatim>\<open>emitFile\<close> is \<^verbatim>\<open>undefined\<close>, the output path is
  \<^verbatim>\<open>abc123.png\<close>, the \<^verbatim>\<open>publicPath\<close> function throws, and \<open>emitFile\<close> is not called.
\<close>

theorem emission_callback_throws_counterexample:
  "validateOptions schema (getOptions (example_this [(''publicPath'', JFun 2)])) = None
   \<and> getProp (getOptions (example_this [(''publicPath'', JFun 2)])) ''emitFile'' = JUndefined
   \<and> resolve_outputPath (example_this [(''publicPath'', JFun 2)])
        (getOptions (example_this [(''publicPath'', JFun 2)]))
        (urlOf (example_this [(''publicPath'', JFun 2)]) [0x89, 0x50])
        (contextOf (example_this [(''publicPath'', JFun 2)])) [] = ([], Inr ''abc123.png'')
   \<and> loader (example_this [(''publicPath'', JFun 2)]) [0x89, 0x50] [] =
       ([InterpolateName (JStr ''[contenthash].[ext]'') (JStr ''/project'') [0x89, 0x50] JUndefined,
         Call 2 [JStr ''abc123.png'', JStr ''/project/src/logo.png'', JStr ''/project'']],
        Inl (Thrown ''callback failed''))
   \<and> emitted (fst (loader (example_this [(''publicPath'', JFun 2)]) [0x89, 0x50] [])) = []"
  by (simp add: evaluation)

text \<open>
  Claim C10. When a user function called during an invocation throws, the invocation
  ends with that error and \<open>emitFile\<close> is not called: the files given to the host are
  those given before the invocation.
\<close>

theorem no_emission_after_callback_failure:
  assumes evs: "fst (loader this content h) = h @ evs"
    and called: "Call f args \<in> set evs"
    and throws: "call this f args = Inl e"
  shows "snd (loader this content h) = Inl e
       \<and> (\<forall>p c. EmitFile p c \<notin> set evs)
       \<and> emitted (fst (loader this content h)) = emitted h"
proof (cases "validateOptions schema (getOptions this)")
  case (Some e')
  with evs called show ?thesis by (simp add: loader_invalid)
next
  case None
  from stopsAtThrow_loader [OF None, of content h]
  obtain evs' where 1: "fst (loader this content h) = h @ interpolation this content # evs'"
    and 2: "\<forall>f args e. Call f args \<in> set evs' \<longrightarrow> call this f args = Inl e \<longrightarrow>
           snd (loader this content h) = Inl e \<and> emitted evs' = []"
    by blast
  from 1 evs have eq: "evs = interpolation this content # evs'" by simp
  with called have "Call f args \<in> set evs'" by (simp add: interpolation_def)
  with 2 throws have r: "snd (loader this content h) = Inl e" and em: "emitted evs' = []"
    by blast+
  have none: "EmitFile p c \<notin> set xs" if "emitted xs = []" for p c xs
    using that by (induction xs rule: emitted.induct) auto
  from em eq have "\<forall>p c. EmitFile p c \<notin> set evs"
    using none [of evs'] by (auto simp: interpolation_def)
  moreover have "emitted (fst (loader this content h)) = emitted h"
    using 1 em by (simp add: emitted_append interpolation_def)
  ultimately show ?thesis using r by blast
qed

theorem no_emission_after_callback_failure_witness:
  "fst (loader (example_this [(''outputPath'', JFun 0), (''postTransformPublicPath'', JFun 2)])
         [0x89, 0x50] []) =
     [] @ [InterpolateName (JStr ''[contenthash].[ext]'') (JStr ''/project'') [0x89, 0x50] JUndefined,
           Call 0 [JStr ''abc123.png'', JStr ''/project/src/logo.png'', JStr ''/project''],
           Call 2 [JStr (''__webpack_public_path__ + '' @ [CHR 0x22] @ ''assets/abc123.png''
                          @ [CHR 0x22])]]
   \<and> call (example_this [(''outputPath'', JFun 0), (''postTransformPublicPath'', JFun 2)]) 2
        [JStr (''__webpack_public_path__ + '' @ [CHR 0x22] @ ''assets/abc123.png'' @ [CHR 0x22])]
       = Inl (Thrown ''callback failed'')
   \<and> snd (loader (example_this [(''outputPath'', JFun 0), (''postTransformPublicPath'', JFun 2)])
         [0x89, 0x50] []) = Inl (Thrown ''callback failed'')
   \<and> emitted (fst (loader (example_this [(''outputPath'', JFun 0),
         (''postTransformPublicPath'', JFun 2)]) [0x89, 0x50] [])) = emitted []"
proof -
  let ?T = "example_this [(''outputPath'', JFun 0), (''postTransformPublicPath'', JFun 2)]"
  let ?I = "InterpolateName (JStr ''[contenthash].[ext]'') (JStr ''/project'') [0x89, 0x50]
              JUndefined"
  let ?d = "''__webpack_public_path__ + '' @ [CHR 0x22] @ ''assets/abc123.png'' @ [CHR 0x22]"
  let ?evs = "[?I, Call 0 [JStr ''abc123.png'', JStr ''/project/src/logo.png'', JStr ''/project''],
               Call 2 [JStr ?d]]"
  have evs: "fst (loader ?T [0x89, 0x50] []) = [] @ ?evs"
    by (simp add: evaluation)
  have called: "Call 2 [JStr ?d] \<in> set ?evs"
    by simp
  have throws: "call ?T 2 [JStr ?d] = Inl (Thrown ''callback failed'')"
    by (simp add: evaluation)
  from no_emission_after_callback_failure [OF evs called throws]
  show ?thesis
    using evs throws by simp
qed

section \<open>Validation\<close>

text \<open>
  Claim C6. A configuration that violates the schema makes the invocation fail with the
  validation error, a \<open>ConfigurationError\<close>, before any call to a collaborator: no name is
  interpolated and nothing is emitted. Validation is the only step of the loader itself
  that rejects: when a valid invocation fails, the error was thrown by a user function
  that it called or by the host's \<open>emitFile\<close>.
\<close>

theorem validation_first:
  "(validateOptions schema (getOptions this) = Some e \<longrightarrow>
      loader this content h = (h, Inl e) \<and> (\<exists>keys. e = ConfigurationError keys))
   \<and> ((validateOptions schema (getOptions this) \<noteq> None) =
        (\<exists>kv \<in> set (getOptions this). \<not> conforms schema kv))
   \<and> (validateOptions schema (getOptions this) = None \<longrightarrow>
      snd (loader this content h) = Inl e \<longrightarrow>
      (\<exists>evs. fst (loader this content h) = h @ evs \<and>
         ((\<exists>f args. Call f args \<in> set evs \<and> call this f args = Inl e)
          \<or> (\<exists>p. EmitFile p content \<in> set evs \<and> emitFile this p content = Some e))))"
proof -
  have a: "loader this content h = (h, Inl e) \<and> (\<exists>keys. e = ConfigurationError keys)"
    if "validateOptions schema (getOptions this) = Some e"
    using that loader_invalid [OF that, of content h]
    by (auto simp: validateOptions_def split: list.splits)
  have b: "(validateOptions schema (getOptions this) \<noteq> None) =
        (\<exists>kv \<in> set (getOptions this). \<not> conforms schema kv)"
    by (simp add: validateOptions_None list_all_iff)
  have c: "\<exists>evs. fst (loader this content h) = h @ evs \<and>
         ((\<exists>f args. Call f args \<in> set evs \<and> call this f args = Inl e)
          \<or> (\<exists>p. EmitFile p content \<in> set evs \<and> emitFile this p content = Some e))"
    if valid: "validateOptions schema (getOptions this) = None"
      and fails: "snd (loader this content h) = Inl e"
  proof -
    from errorsFromCollaborators_loader [OF valid, of content h]
    obtain evs where 1: "fst (loader this content h) = h @ interpolation this content # evs"
      and 2: "\<forall>e. snd (loader this content h) = Inl e \<longrightarrow>
           (\<exists>f args. Call f args \<in> set evs \<and> call this f args = Inl e)
         \<or> (\<exists>p. EmitFile p content \<in> set evs \<and> emitFile this p content = Some e)"
      by blast
    from 2 fails have "(\<exists>f args. Call f args \<in> set evs \<and> call this f args = Inl e)
         \<or> (\<exists>p. EmitFile p content \<in> set evs \<and> emitFile this p content = Some e)"
      by blast
    then have "(\<exists>f args. Call f args \<in> set (interpolation this content # evs)
                   \<and> call this f args = Inl e)
         \<or> (\<exists>p. EmitFile p content \<in> set (interpolation this content # evs)
                   \<and> emitFile this p content = Some e)"
      by auto
    with 1 show ?thesis by blast
  qed
  from a b c show ?thesis by blast
qed

theorem validation_first_witness:
  "validateOptions schema (getOptions (example_this [(''foo'', JNum 1)])) =
     Some (ConfigurationError [''foo''])
   \<and> loader (example_this [(''foo'', JNum 1)]) [0x89, 0x50] [] =
       ([], Inl (ConfigurationError [''foo'']))
   \<and> (\<exists>kv \<in> set (getOptions (example_this [(''foo'', JNum 1)])). \<not> conforms schema kv)
   \<and> validateOptions schema (getOptions (example_this [(''publicPath'', JFun 2)])) = None
   \<and> snd (loader (example_this [(''publicPath'', JFun 2)]) [0x89, 0x50] []) =
       Inl (Thrown ''callback failed'')
   \<and> call (example_this [(''publicPath'', JFun 2)]) 2
       [JStr ''abc123.png'', JStr ''/project/src/logo.png'', JStr ''/project'']
       = Inl (Thrown ''callback failed'')"
proof -
  let ?T = "example_this [(''foo'', JNum 1)]"
  let ?U = "example_this [(''publicPath'', JFun 2)]"
  have invalid: "validateOptions schema (getOptions ?T) = Some (ConfigurationError [''foo''])"
    by (simp add: evaluation)
  have valid: "validateOptions schema (getOptions ?U) = None"
    by (simp add: evaluation)
  have fails: "snd (loader ?U [0x89, 0x50] []) = Inl (Thrown ''callback failed'')"
    by (simp add: evaluation)
  from validation_first [where this = ?T and e = "ConfigurationError [''foo'']"
      and content = "[0x89, 0x50]" and h = "[]"]
    validation_first [where this = ?U and e = "Thrown ''callback failed''"
      and content = "[0x89, 0x50]" and h = "[]"]
  show ?thesis
    using invalid valid fails by (simp add: evaluation)
qed

section \<open>Determinism\<close>

subsection \<open>Steps over the world\<close>

lemma same_inputs_refl: "same_inputs w w"
  by (simp add: same_inputs_def)

lemma same_inputs_sym: "same_inputs w w' \<Longrightarrow> same_inputs w' w"
  by (simp add: same_inputs_def)

lemma same_inputs_trans: "same_inputs w w' \<Longrightarrow> same_inputs w' w'' \<Longrightarrow> same_inputs w w''"
  by (simp add: same_inputs_def)

lemma determined_read:
  assumes "\<And>w w'. same_inputs w w' \<Longrightarrow> f w = f w'"
  shows "determined (read_w f)"
  using assms by (simp add: determined_def read_w_def)

lemma determined_andThen:
  assumes m: "determined m" and k: "\<And>x. determined (k x)"
  shows "determined (andThen_w m k)"
  unfolding determined_def
proof (intro allI impI)
  fix w w' :: "'a world"
  assume same: "same_inputs w w'"
  from m same have r: "fst (m w) = fst (m w')" and s: "same_inputs (snd (m w)) (snd (m w'))"
    unfolding determined_def by blast+
  show "fst (andThen_w m k w) = fst (andThen_w m k w')
        \<and> same_inputs (snd (andThen_w m k w)) (snd (andThen_w m k w'))"
  proof (cases "fst (m w)")
    case (Inl e)
    with r s show ?thesis
      by (cases "m w"; cases "m w'") (simp add: andThen_w_def)
  next
    case (Inr x)
    from k [of x] s have "fst (k x (snd (m w))) = fst (k x (snd (m w')))
        \<and> same_inputs (snd (k x (snd (m w)))) (snd (k x (snd (m w'))))"
      unfolding determined_def by blast
    with Inr r show ?thesis
      by (cases "m w"; cases "m w'") (auto simp: andThen_w_def)
  qed
qed

lemma keeps_read: "keeps (read_w f)"
  by (simp add: keeps_def read_w_def same_inputs_refl)

lemma keeps_andThen:
  assumes m: "keeps m" and k: "\<And>x. keeps (k x)"
  shows "keeps (andThen_w m k)"
  unfolding keeps_def
proof
  fix w :: "'a world"
  from m have s: "same_inputs (snd (m w)) w"
    unfolding keeps_def by blast
  show "same_inputs (snd (andThen_w m k w)) w"
  proof (cases "fst (m w)")
    case (Inl e)
    with s show ?thesis
      by (cases "m w") (simp add: andThen_w_def)
  next
    case (Inr x)
    from k [of x] have "same_inputs (snd (k x (snd (m w)))) (snd (m w))"
      unfolding keeps_def by blast
    then have "same_inputs (snd (k x (snd (m w)))) w"
      using s by (rule same_inputs_trans)
    with Inr show ?thesis
      by (cases "m w") (simp add: andThen_w_def)
  qed
qed

lemma determined_validate: "determined validate_w"
  by (simp add: determined_def validate_w_def same_inputs_def)

lemma keeps_validate: "keeps validate_w"
  by (simp add: keeps_def validate_w_def same_inputs_refl)

lemma deterministic_call:
  assumes "deterministic C"
  shows "determined (c_call C f args)"
  using assms unfolding deterministic_def determined_def by blast

lemma preserves_call:
  assumes "preserves_inputs C"
  shows "keeps (c_call C f args)"
  using assms unfolding preserves_inputs_def keeps_def by blast

lemma determined_interpolate:
  assumes "deterministic C"
  shows "determined (interpolate_w C context)"
  unfolding determined_def
proof (intro allI impI)
  fix w w' :: "'a world"
  assume same: "same_inputs w w'"
  then have o: "w_options w = w_options w'"
    by (simp add: same_inputs_def)
  from assms same
  have "fst (c_interpolateName C t context r w) = fst (c_interpolateName C t context r w')
        \<and> same_inputs (snd (c_interpolateName C t context r w))
             (snd (c_interpolateName C t context r w'))" for t r
    unfolding deterministic_def by blast
  then show "fst (interpolate_w C context w) = fst (interpolate_w C context w')
        \<and> same_inputs (snd (interpolate_w C context w)) (snd (interpolate_w C context w'))"
    by (simp add: interpolate_w_def o split: prod.splits) (metis fst_conv snd_conv)
qed

lemma keeps_interpolate:
  assumes "preserves_inputs C"
  shows "keeps (interpolate_w C context)"
  using assms unfolding preserves_inputs_def keeps_def
  by (auto simp: interpolate_w_def split: prod.splits) (metis snd_conv)

lemma determined_outputPath:
  assumes "deterministic C"
  shows "determined (outputPath_w C url context)"
  unfolding determined_def
proof (intro allI impI)
  fix w w' :: "'a world"
  assume same: "same_inputs w w'"
  then have o: "w_options w = w_options w'" and p: "w_resourcePath w = w_resourcePath w'"
    by (simp_all add: same_inputs_def)
  from deterministic_call [OF assms] same
  have c: "fst (c_call C f args w) = fst (c_call C f args w')
        \<and> same_inputs (snd (c_call C f args w)) (snd (c_call C f args w'))" for f args
    unfolding determined_def by blast
  show "fst (outputPath_w C url context w) = fst (outputPath_w C url context w')
        \<and> same_inputs (snd (outputPath_w C url context w)) (snd (outputPath_w C url context w'))"
    using same c by (simp add: outputPath_w_def o p split: jsvalue.splits)
qed

lemma keeps_outputPath:
  assumes "preserves_inputs C"
  shows "keeps (outputPath_w C url context)"
  using preserves_call [OF assms] unfolding keeps_def
  by (simp add: outputPath_w_def same_inputs_refl split: jsvalue.splits)

lemma determined_publicPath:
  assumes "deterministic C"
  shows "determined (publicPath_w C url context outputPath)"
proof -
  let ?m = "\<lambda>w. case getProp (w_options w) ''publicPath'' of
                 JFun f \<Rightarrow> c_call C f [JStr url, JStr (w_resourcePath w), context] w
               | JStr s \<Rightarrow> (Inr ((if endsWith s ''/'' then s else s @ ''/'') @ url), w)
               | _ \<Rightarrow> (Inl TypeError, w)"
  have m: "determined ?m"
    unfolding determined_def
  proof (intro allI impI)
    fix w w' :: "'a world"
    assume same: "same_inputs w w'"
    then have o: "w_options w = w_options w'" and p: "w_resourcePath w = w_resourcePath w'"
      by (simp_all add: same_inputs_def)
    from deterministic_call [OF assms] same
    have c: "fst (c_call C f args w) = fst (c_call C f args w')
        \<and> same_inputs (snd (c_call C f args w)) (snd (c_call C f args w'))" for f args
      unfolding determined_def by blast
    show "fst (?m w) = fst (?m w') \<and> same_inputs (snd (?m w)) (snd (?m w'))"
      using same c by (simp add: o p split: jsvalue.splits)
  qed
  have q: "determined (andThen_w ?m (\<lambda>publicPath. read_w (\<lambda>w. JSON_stringify publicPath)))"
    by (intro determined_andThen m determined_read) simp
  show ?thesis
    unfolding determined_def
  proof (intro allI impI)
    fix w w' :: "'a world"
    assume same: "same_inputs w w'"
    then have o: "w_options w = w_options w'"
      by (simp add: same_inputs_def)
    from q same show "fst (publicPath_w C url context outputPath w)
          = fst (publicPath_w C url context outputPath w')
        \<and> same_inputs (snd (publicPath_w C url context outputPath w))
             (snd (publicPath_w C url context outputPath w'))"
      unfolding determined_def by (simp add: publicPath_w_def o)
  qed
qed

lemma keeps_publicPath:
  assumes "preserves_inputs C"
  shows "keeps (publicPath_w C url context outputPath)"
proof -
  let ?m = "\<lambda>w. case getProp (w_options w) ''publicPath'' of
                 JFun f \<Rightarrow> c_call C f [JStr url, JStr (w_resourcePath w), context] w
               | JStr s \<Rightarrow> (Inr ((if endsWith s ''/'' then s else s @ ''/'') @ url), w)
               | _ \<Rightarrow> (Inl TypeError, w)"
  have "keeps ?m"
    using preserves_call [OF assms] unfolding keeps_def
    by (simp add: same_inputs_refl split: jsvalue.splits)
  then have "keeps (andThen_w ?m (\<lambda>publicPath. read_w (\<lambda>w. JSON_stringify publicPath)))"
    by (intro keeps_andThen keeps_read)
  then show ?thesis
    unfolding keeps_def by (simp add: publicPath_w_def same_inputs_refl)
qed

lemma determined_postTransform:
  assumes "deterministic C"
  shows "determined (postTransform_w C publicPath)"
  unfolding determined_def
proof (intro allI impI)
  fix w w' :: "'a world"
  assume same: "same_inputs w w'"
  then have o: "w_options w = w_options w'"
    by (simp add: same_inputs_def)
  from deterministic_call [OF assms] same
  have c: "fst (c_call C f args w) = fst (c_call C f args w')
        \<and> same_inputs (snd (c_call C f args w)) (snd (c_call C f args w'))" for f args
    unfolding determined_def by blast
  show "fst (postTransform_w C publicPath w) = fst (postTransform_w C publicPath w')
        \<and> same_inputs (snd (postTransform_w C publicPath w)) (snd (postTransform_w C publicPath w'))"
    using same c by (simp add: postTransform_w_def o split: jsvalue.splits)
qed

lemma keeps_postTransform:
  assumes "preserves_inputs C"
  shows "keeps (postTransform_w C publicPath)"
  using preserves_call [OF assms] unfolding keeps_def
  by (simp add: postTransform_w_def same_inputs_refl split: jsvalue.splits)

lemma determined_emit:
  assumes "deterministic C"
  shows "determined (emit_w C outputPath)"
  unfolding determined_def
proof (intro allI impI)
  fix w w' :: "'a world"
  assume same: "same_inputs w w'"
  then have o: "w_options w = w_options w'"
    by (simp add: same_inputs_def)
  from assms same
  have "fst (c_emitFile C outputPath w) = fst (c_emitFile C outputPath w')
        \<and> same_inputs (snd (c_emitFile C outputPath w)) (snd (c_emitFile C outputPath w'))"
    unfolding deterministic_def by blast
  then show "fst (emit_w C outputPath w) = fst (emit_w C outputPath w')
        \<and> same_inputs (snd (emit_w C outputPath w)) (snd (emit_w C outputPath w'))"
    using same
    by (cases "c_emitFile C outputPath w"; cases "c_emitFile C outputPath w'")
      (auto simp: emit_w_def o split: option.splits)
qed

lemma keeps_emit:
  assumes "preserves_inputs C"
  shows "keeps (emit_w C outputPath)"
proof -
  from assms have "same_inputs (snd (c_emitFile C outputPath w)) w" for w
    unfolding preserves_inputs_def by blast
  then show ?thesis
    unfolding keeps_def
    by (auto simp: emit_w_def same_inputs_refl split: prod.splits option.splits)
      (metis snd_conv)+
qed

lemma determined_loader:
  assumes "deterministic C"
  shows "determined (loader_w C)"
  unfolding loader_w_def
  by (intro determined_andThen determined_validate determined_interpolate determined_outputPath
      determined_publicPath determined_postTransform determined_emit determined_read assms)
    (simp_all add: same_inputs_def)

lemma keeps_loader:
  assumes "preserves_inputs C"
  shows "keeps (loader_w C)"
  unfolding loader_w_def
  by (intro keeps_andThen keeps_validate keeps_interpolate keeps_outputPath
      keeps_publicPath keeps_postTransform keeps_emit keeps_read assms)

subsection \<open>The two models of the loader\<close>

lemma agree_andThen:
  assumes "\<And>h. m_w W = (snd (m h), W)"
    and "\<And>x h. k_w x W = (snd (k x h), W)"
  shows "andThen_w m_w k_w W = (snd (andThen m k h), W)"
proof (cases "m h")
  case (Pair h' r)
  with assms(1) [of h] have m: "m_w W = (r, W)"
    by simp
  show ?thesis
  proof (cases r)
    case (Inl e)
    with m Pair show ?thesis
      by (simp add: andThen_w_def andThen_def)
  next
    case (Inr y)
    with m Pair assms(2) [of y h'] show ?thesis
      by (simp add: andThen_w_def andThen_def)
  qed
qed

lemma validate_w_of:
  "validate_w (world_of this content x) =
     (snd ((case validateOptions schema (getOptions this) of
              Some e \<Rightarrow> throw e | None \<Rightarrow> ret ()) h),
      world_of this content x)"
  by (simp add: validate_w_def world_of_def throw_def ret_def split: option.splits)

lemma interpolate_w_of:
  "interpolate_w (collaborators_of this) context (world_of this content x) =
     (snd (do_interpolateName this
             (js_or (getProp (getOptions this) ''name'') (JStr ''[contenthash].[ext]''))
             context content (getProp (getOptions this) ''regExp'') h),
      world_of this content x)"
  by (simp add: interpolate_w_def collaborators_of_def world_of_def do_interpolateName_def)

lemma outputPath_w_of:
  "outputPath_w (collaborators_of this) url context (world_of this content x) =
     (snd (resolve_outputPath this (getOptions this) url context h), world_of this content x)"
  by (simp add: outputPath_w_def resolve_outputPath_def collaborators_of_def world_of_def
      do_call_def ret_def throw_def split: jsvalue.splits)

lemma publicPath_w_of:
  "publicPath_w (collaborators_of this) url context outputPath (world_of this content x) =
     (snd (resolve_publicPath this (getOptions this) url context outputPath h),
      world_of this content x)"
  by (simp add: publicPath_w_def resolve_publicPath_def collaborators_of_def world_of_def
      andThen_w_def andThen_def read_w_def do_call_def ret_def throw_def
      split: jsvalue.splits sum.splits)

lemma postTransform_w_of:
  "postTransform_w (collaborators_of this) publicPath (world_of this content x) =
     (snd (postTransform this (getOptions this) publicPath h), world_of this content x)"
  by (simp add: postTransform_w_def postTransform_def collaborators_of_def world_of_def
      do_call_def ret_def throw_def split: jsvalue.splits)

lemma emit_w_of:
  "emit_w (collaborators_of this) outputPath (world_of this content x) =
     (snd (emit this (getOptions this) outputPath content h), world_of this content x)"
  by (simp add: emit_w_def emit_def collaborators_of_def world_of_def do_emitFile_def ret_def
      split: option.splits)

lemma generate_w_of:
  "read_w (\<lambda>w. generate (w_options w) publicPath) (world_of this content x) =
     (snd (ret (generate (getOptions this) publicPath) h), world_of this content x)"
  by (simp add: read_w_def ret_def world_of_def)

lemma loader_w_of:
  "loader_w (collaborators_of this) (world_of this content x) =
     (snd (loader this content h), world_of this content x)"
proof -
  let ?W = "world_of this content x :: 'a world"
  have rd: "andThen_w (read_w f) k ?W = k (f ?W) ?W" for f :: "'a world \<Rightarrow> jsvalue"
    and k :: "jsvalue \<Rightarrow> ('a, string) step"
    by (simp add: andThen_w_def read_w_def)
  have c: "js_or (getProp (w_options ?W) ''context'') (JStr (w_rootContext ?W)) =
      js_or (getProp (getOptions this) ''context'') (JStr (rootContext this))"
    by (simp add: world_of_def)
  show ?thesis
    unfolding loader_w_def loader_def Let_def
    apply (rule agree_andThen)
     apply (rule validate_w_of)
    apply (subst rd)
    apply (simp only: c)
    apply (rule agree_andThen)
     apply (rule interpolate_w_of)
    apply (rule agree_andThen)
     apply (rule outputPath_w_of)
    apply (rule agree_andThen)
     apply (rule publicPath_w_of)
    apply (rule agree_andThen)
     apply (rule postTransform_w_of)
    apply (rule agree_andThen)
     apply (rule emit_w_of)
    apply (rule generate_w_of)
    done
qed

lemma deterministic_collaborators_of: "deterministic (collaborators_of this)"
  by (simp add: deterministic_def collaborators_of_def same_inputs_def)

lemma preserves_collaborators_of: "preserves_inputs (collaborators_of this)"
  by (simp add: preserves_inputs_def collaborators_of_def same_inputs_def)

lemma deterministic_counting: "deterministic counting_collaborators"
  by (simp add: deterministic_def counting_collaborators_def same_inputs_def)

lemma preserves_counting: "preserves_inputs counting_collaborators"
  by (simp add: preserves_inputs_def counting_collaborators_def same_inputs_def)

lemmas evaluation_w =
  loader_w_def andThen_w_def read_w_def validate_w_def interpolate_w_def outputPath_w_def
  publicPath_w_def postTransform_w_def emit_w_def counting_collaborators_def
  leaking_collaborators_def example_world_def same_inputs_def

lemma hidden_state_matters:
  "same_inputs (example_world [(''outputPath'', JFun 0)] 0)
     (example_world [(''outputPath'', JFun 0)] 2)
   \<and> fst (loader_w leaking_collaborators (example_world [(''outputPath'', JFun 0)] 0)) =
       Inr (''export default __webpack_public_path__ + '' @ [CHR 0x22] @ ''*''
              @ [CHR 0x22] @ '';'')
   \<and> fst (loader_w leaking_collaborators (example_world [(''outputPath'', JFun 0)] 2)) =
       Inr (''export default __webpack_public_path__ + '' @ [CHR 0x22] @ ''***''
              @ [CHR 0x22] @ '';'')
   \<and> \<not> deterministic leaking_collaborators"
proof -
  have run: "same_inputs (example_world [(''outputPath'', JFun 0)] 0)
     (example_world [(''outputPath'', JFun 0)] 2)
   \<and> fst (loader_w leaking_collaborators (example_world [(''outputPath'', JFun 0)] 0)) =
       Inr (''export default __webpack_public_path__ + '' @ [CHR 0x22] @ ''*''
              @ [CHR 0x22] @ '';'')
   \<and> fst (loader_w leaking_collaborators (example_world [(''outputPath'', JFun 0)] 2)) =
       Inr (''export default __webpack_public_path__ + '' @ [CHR 0x22] @ ''***''
              @ [CHR 0x22] @ '';'')"
    by (simp add: evaluation_w evaluation numeral_2_eq_2 numeral_3_eq_3)
  have "\<not> deterministic leaking_collaborators"
  proof
    assume "deterministic leaking_collaborators"
    then have "determined (loader_w leaking_collaborators)"
      by (rule determined_loader)
    with run have
      "fst (loader_w leaking_collaborators (example_world [(''outputPath'', JFun 0)] 0)) =
       fst (loader_w leaking_collaborators (example_world [(''outputPath'', JFun 0)] 2))"
      unfolding determined_def by blast
    with run show False
      by auto
  qed
  with run show ?thesis by blast
qed

subsection \<open>Two invocations\<close>

text \<open>
  Claim C8. The collaborators are deterministic: in worlds with the same inputs
  (options, root context, resource path, content) they give the same results and leave
  the same inputs, whatever their own state. Then two invocations in worlds with the
  same inputs give the same outcome (the same source string or the same error), resolve
  the same name and the same output path, and leave worlds with the same inputs: the
  loader reads nothing but its inputs and what its collaborators return. When the
  collaborators moreover leave the inputs as they are, so does the loader, and invoking
  it again in the world that the first invocation has left gives the same outcome: it
  changes none of its inputs and keeps no state between invocations. For collaborators
  that are functions of their arguments, this loader is the loader of the first model.
\<close>

theorem two_invocations_agree:
  assumes det: "deterministic C"
    and same: "same_inputs w w'"
  shows "fst (loader_w C w) = fst (loader_w C w')
       \<and> same_inputs (snd (loader_w C w)) (snd (loader_w C w'))
       \<and> fst (interpolate_w C ctx w) = fst (interpolate_w C ctx w')
       \<and> fst (outputPath_w C url ctx w) = fst (outputPath_w C url ctx w')
       \<and> (preserves_inputs C \<longrightarrow>
            same_inputs (snd (loader_w C w)) w
            \<and> fst (loader_w C (snd (loader_w C w))) = fst (loader_w C w))
       \<and> deterministic (collaborators_of this)
       \<and> loader_w (collaborators_of this) (world_of this content x) =
           (snd (loader this content h), world_of this content x)"
proof -
  have run: "fst (loader_w C w) = fst (loader_w C w')
       \<and> same_inputs (snd (loader_w C w)) (snd (loader_w C w'))"
    using determined_loader [OF det] same unfolding determined_def by blast
  have name: "fst (interpolate_w C ctx w) = fst (interpolate_w C ctx w')"
    using determined_interpolate [OF det] same unfolding determined_def by blast
  have out: "fst (outputPath_w C url ctx w) = fst (outputPath_w C url ctx w')"
    using determined_outputPath [OF det] same unfolding determined_def by blast
  have again: "same_inputs (snd (loader_w C w)) w
            \<and> fst (loader_w C (snd (loader_w C w))) = fst (loader_w C w)"
    if pres: "preserves_inputs C"
  proof -
    from keeps_loader [OF pres] have kept: "same_inputs (snd (loader_w C w)) w"
      unfolding keeps_def by blast
    with determined_loader [OF det] show ?thesis
      unfolding determined_def by blast
  qed
  have functional: "deterministic (collaborators_of this)"
    by (rule deterministic_collaborators_of)
  have eq: "loader_w (collaborators_of this) (world_of this content x) =
           (snd (loader this content h), world_of this content x)"
    by (rule loader_w_of)
  show ?thesis
  proof (intro conjI impI)
    show "fst (loader_w C w) = fst (loader_w C w')"
      using run by (rule conjunct1)
    show "same_inputs (snd (loader_w C w)) (snd (loader_w C w'))"
      using run by (rule conjunct2)
    show "fst (interpolate_w C ctx w) = fst (interpolate_w C ctx w')"
      by (rule name)
    show "fst (outputPath_w C url ctx w) = fst (outputPath_w C url ctx w')"
      by (rule out)
    show "same_inputs (snd (loader_w C w)) w" if "preserves_inputs C"
      using again [OF that] by (rule conjunct1)
    show "fst (loader_w C (snd (loader_w C w))) = fst (loader_w C w)" if "preserves_inputs C"
      using again [OF that] by (rule conjunct2)
    show "deterministic (collaborators_of this)"
      by (rule functional)
    show "loader_w (collaborators_of this) (world_of this content x) =
           (snd (loader this content h), world_of this content x)"
      by (rule eq)
  qed
qed

theorem two_invocations_agree_witness:
  "deterministic counting_collaborators
   \<and> preserves_inputs counting_collaborators
   \<and> same_inputs (example_world [(''outputPath'', JFun 0)] 0)
       (example_world [(''outputPath'', JFun 0)] 7)
   \<and> loader_w counting_collaborators (example_world [(''outputPath'', JFun 0)] 0) =
       (Inr (''export default __webpack_public_path__ + '' @ [CHR 0x22] @ ''assets/abc123.png''
               @ [CHR 0x22] @ '';''),
        example_world [(''outputPath'', JFun 0)] 3)
   \<and> loader_w counting_collaborators (example_world [(''outputPath'', JFun 0)] 7) =
       (Inr (''export default __webpack_public_path__ + '' @ [CHR 0x22] @ ''assets/abc123.png''
               @ [CHR 0x22] @ '';''),
        example_world [(''outputPath'', JFun 0)] 10)
   \<and> fst (loader_w counting_collaborators
            (snd (loader_w counting_collaborators (example_world [(''outputPath'', JFun 0)] 0))))
       = fst (loader_w counting_collaborators (example_world [(''outputPath'', JFun 0)] 0))"
proof -
  have same: "same_inputs (example_world [(''outputPath'', JFun 0)] 0)
       (example_world [(''outputPath'', JFun 0)] 7)"
    by (simp add: same_inputs_def example_world_def)
  have first: "loader_w counting_collaborators (example_world [(''outputPath'', JFun 0)] 0) =
       (Inr (''export default __webpack_public_path__ + '' @ [CHR 0x22] @ ''assets/abc123.png''
               @ [CHR 0x22] @ '';''),
        example_world [(''outputPath'', JFun 0)] 3)"
    by (simp add: evaluation_w evaluation numeral_3_eq_3)
  have second: "loader_w counting_collaborators (example_world [(''outputPath'', JFun 0)] 7) =
       (Inr (''export default __webpack_public_path__ + '' @ [CHR 0x22] @ ''assets/abc123.png''
               @ [CHR 0x22] @ '';''),
        example_world [(''outputPath'', JFun 0)] 10)"
    by (simp add: evaluation_w evaluation)
  note agree = two_invocations_agree [OF deterministic_counting same, where ctx = JUndefined
      and url = "''abc123.png''" and this = "example_this []" and content = "[]" and h = "[]"
      and x = "0 :: nat"]
  from agree preserves_counting
  have again: "fst (loader_w counting_collaborators
            (snd (loader_w counting_collaborators (example_world [(''outputPath'', JFun 0)] 0))))
       = fst (loader_w counting_collaborators (example_world [(''outputPath'', JFun 0)] 0))"
    by blast
  show ?thesis
  proof (intro conjI)
    show "deterministic counting_collaborators"
      by (rule deterministic_counting)
    show "preserves_inputs counting_collaborators"
      by (rule preserves_counting)
  qed (rule same first second again)+
qed

end
